theory Spec2Isabelle
  imports Main "HOL-Library.Monad_Syntax" "HOL-Library.Sublist"
begin

section \<open>Qt string and container primitives used by git.cpp\<close>

text \<open>
  A \<open>QString\<close> is modelled as a \<open>string\<close> (one \<open>char\<close> per code unit). Positions
  and sizes are C++ \<open>int\<close>s; they are modelled as \<open>int\<close> without wrap-around, since a
  Qt container never holds more than \<open>2^31 - 1\<close> elements.

  \<open>QString::at(i)\<close> and the const \<open>operator[]\<close> require \<open>0 \<le> i < size()\<close>
  (a \<open>Q_ASSERT\<close> in Qt, an undefined read otherwise). The model makes the violation
  of that precondition a value: \<open>None\<close>.
\<close>

definition QString_at :: "string \<Rightarrow> int \<Rightarrow> char option" where
  "QString_at s i = (if 0 \<le> i \<and> i < int (length s) then Some (s ! nat i) else None)"

text \<open>\<open>QVector<T>::at(i)\<close>, \<open>operator[]\<close> on a vector or list: same precondition.\<close>

definition QVector_at :: "'a list \<Rightarrow> int \<Rightarrow> 'a option" where
  "QVector_at v i = (if 0 \<le> i \<and> i < int (length v) then Some (v ! nat i) else None)"

text \<open>\<open>QString::left(n)\<close>: the whole string when \<open>n\<close> is negative or at least the size.\<close>

definition QString_left :: "string \<Rightarrow> int \<Rightarrow> string" where
  "QString_left s n = (if n < 0 \<or> int (length s) \<le> n then s else take (nat n) s)"

text \<open>
  \<open>QString::mid(position, n)\<close>, with \<open>n = -1\<close> for the one-argument call: empty when
  the position exceeds the size, everything from the position when \<open>n\<close> is negative or
  larger than what is left.
\<close>

definition QString_mid :: "string \<Rightarrow> int \<Rightarrow> int \<Rightarrow> string" where
  "QString_mid s pos n =
     (let sz = int (length s) in
      if sz < pos then []
      else if pos < 0 then
        (if n < 0 \<or> sz \<le> n + pos then s
         else if n + pos \<le> 0 then []
         else take (nat (n + pos)) s)
      else if n < 0 \<or> sz - pos < n then drop (nat pos) s
      else take (nat n) (drop (nat pos) s))"

text \<open>
  \<open>indexOf_aux c s i\<close>: the position of the first \<open>c\<close> in \<open>s\<close>, where the head of
  \<open>s\<close> has position \<open>i\<close>; \<open>-1\<close> when there is none.
\<close>

primrec indexOf_aux :: "char \<Rightarrow> string \<Rightarrow> int \<Rightarrow> int" where
  "indexOf_aux c [] i = -1"
| "indexOf_aux c (x # xs) i = (if x = c then i else indexOf_aux c xs (i + 1))"

text \<open>\<open>QString::indexOf(ch, from)\<close>; a negative \<open>from\<close> counts from the end.\<close>

definition QString_indexOf :: "string \<Rightarrow> char \<Rightarrow> int \<Rightarrow> int" where
  "QString_indexOf s c from =
     (let f = (if from < 0 then max (from + int (length s)) 0 else from)
      in if f < int (length s) then indexOf_aux c (drop (nat f) s) f else -1)"

primrec lastIndexOf_aux :: "char \<Rightarrow> string \<Rightarrow> int \<Rightarrow> int \<Rightarrow> int" where
  "lastIndexOf_aux c [] i found = found"
| "lastIndexOf_aux c (x # xs) i found =
     lastIndexOf_aux c xs (i + 1) (if x = c then i else found)"

text \<open>\<open>QString::lastIndexOf(ch)\<close>: the last position of \<open>ch\<close>, or \<open>-1\<close>.\<close>

definition QString_lastIndexOf :: "string \<Rightarrow> char \<Rightarrow> int" where
  "QString_lastIndexOf s c = lastIndexOf_aux c s 0 (-1)"

text \<open>
  Splitting at a separator, empty fields kept (\<open>QByteArray::split\<close>, and
  \<open>QString::split\<close> with \<open>KeepEmptyParts\<close>): the result is never empty.
\<close>

primrec splitKeep :: "'a \<Rightarrow> 'a list \<Rightarrow> 'a list list" where
  "splitKeep sep [] = [[]]"
| "splitKeep sep (x # xs) =
     (if x = sep then [] # splitKeep sep xs
      else (x # hd (splitKeep sep xs)) # tl (splitKeep sep xs))"

text \<open>\<open>QString::split(sep, QString::SkipEmptyParts)\<close>.\<close>

definition QString_split_skipEmpty :: "string \<Rightarrow> char \<Rightarrow> string list" where
  "QString_split_skipEmpty s sep = filter (\<lambda>f. f \<noteq> []) (splitKeep sep s)"

text \<open>
  \<open>QString::section(sep, -1)\<close>: the last of the fields separated by \<open>sep\<close> (empty
  fields count), that is the text after the last separator, or the whole string.
\<close>

definition QString_section_last :: "string \<Rightarrow> char \<Rightarrow> string" where
  "QString_section_last s sep = last (splitKeep sep s)"

text \<open>\<open>QString::remove(0, 1)\<close>, the only use in git.cpp: drops the first character.\<close>

definition QString_remove_first :: "string \<Rightarrow> string" where
  "QString_remove_first s = drop 1 s"

definition isDigit :: "char \<Rightarrow> bool" where
  "isDigit c = (48 \<le> (of_char c :: nat) \<and> (of_char c :: nat) \<le> 57)"

definition isSpace :: "char \<Rightarrow> bool" where
  "isSpace c = ((of_char c :: nat) = 32 \<or> (9 \<le> (of_char c :: nat) \<and> (of_char c :: nat) \<le> 13))"

primrec digitsValue :: "string \<Rightarrow> nat \<Rightarrow> nat" where
  "digitsValue [] acc = acc"
| "digitsValue (c # cs) acc = digitsValue cs (10 * acc + (of_char c - 48))"

definition QString_trimmed :: "string \<Rightarrow> string" where
  "QString_trimmed s = rev (dropWhile isSpace (rev (dropWhile isSpace s)))"

text \<open>
  \<open>QString::toInt()\<close> in base 10: surrounding white space and one sign are accepted,
  then digits only; the result is 0 when the text is not a number or does not fit a
  32-bit \<open>int\<close>.
\<close>

definition QString_toInt :: "string \<Rightarrow> int" where
  "QString_toInt s =
     (let t = QString_trimmed s;
          neg = (t \<noteq> [] \<and> hd t = CHR ''-'');
          ds = (if t \<noteq> [] \<and> (hd t = CHR ''-'' \<or> hd t = CHR ''+'') then tl t else t);
          v = (if neg then - int (digitsValue ds 0) else int (digitsValue ds 0))
      in if ds \<noteq> [] \<and> list_all isDigit ds \<and> - 2147483648 \<le> v \<and> v \<le> 2147483647
         then v else 0)"

fun natDigits :: "nat \<Rightarrow> string" where
  "natDigits n =
     (if n < 10 then [char_of (48 + n)]
      else natDigits (n div 10) @ [char_of (48 + n mod 10)])"

text \<open>\<open>QString::number(int)\<close>: the decimal text.\<close>

definition QString_number :: "int \<Rightarrow> string" where
  "QString_number n = (if n < 0 then CHR ''-'' # natDigits (nat (- n)) else natDigits (nat n))"


section \<open>RevisionFile\<close>

text \<open>
  The status word of an entry combines flags bitwise. The numeric values of
  \<open>RevisionFile::StatusFlag\<close> are not in git.cpp; a status word is modelled as the set
  of the flags it has, \<open>|=\<close> as insertion and \<open>&\<close> with one flag as membership.
\<close>

datatype StatusFlag = MODIFIED | DELETED | NEW | UNKNOWN | IN_INDEX | CONFLICT

text \<open>
  git.cpp reads and writes \<open>pathsIdx\<close> and \<open>mergeParent\<close> directly. \<open>pathsIdx\<close> is a
  byte array that \<open>Git::flushFileNames\<close> fills through an \<open>int *\<close>: it is modelled as
  the list of those \<open>int\<close>s (all directory indices, then all file indices). The
  status vector, the extended-status vector and the only-modified flag are private to
  the class and reached through its methods.
\<close>

record RevisionFile =
  pathsIdx :: "int list"
  mergeParent :: "int list"
  status :: "StatusFlag set list"
  extStatus :: "string list"
  mOnlyModified :: bool

text \<open>
  Modelled from the spec: the class \<open>RevisionFile\<close> (RevisionFile.h) is not among the
  sources; the definitions of this section up to \<open>extendedStatus\<close> follow the spec's
  data model: the only-modified flag is "true until any entry with non-Modified status
  is appended", \<open>count()\<close> is the number of entries in the packed storage, the flags are
  "bitwise-combinable with status", and an entry holds "an optional extended-status
  string".
\<close>

definition RevisionFile_new :: RevisionFile where
  "RevisionFile_new =
     \<lparr>pathsIdx = [], mergeParent = [], status = [], extStatus = [], mOnlyModified = True\<rparr>"

definition count :: "RevisionFile \<Rightarrow> int" where
  "count r = int (length (pathsIdx r)) div 2"

text \<open>\<open>dirAt(i)\<close> and \<open>nameAt(i)\<close> read the packed block the way the flush lays it out.\<close>

definition dirAt :: "RevisionFile \<Rightarrow> int \<Rightarrow> int option" where
  "dirAt r i = QVector_at (pathsIdx r) i"

definition nameAt :: "RevisionFile \<Rightarrow> int \<Rightarrow> int option" where
  "nameAt r i = QVector_at (pathsIdx r) (count r + i)"

text \<open>
  \<open>setStatus\<close> with a status letter of the raw diff format. How a letter decodes to
  flags is decided by code that is not in the sources, so the decoding \<open>dec\<close> is a
  parameter of the model.
\<close>

definition setStatus_code :: "(string \<Rightarrow> StatusFlag set) \<Rightarrow> string \<Rightarrow> RevisionFile \<Rightarrow> RevisionFile" where
  "setStatus_code dec rowSt r =
     r\<lparr>status := status r @ [dec rowSt],
       mOnlyModified := (mOnlyModified r \<and> dec rowSt = {MODIFIED})\<rparr>"

definition setStatus_flag :: "StatusFlag \<Rightarrow> RevisionFile \<Rightarrow> RevisionFile" where
  "setStatus_flag f r =
     r\<lparr>status := status r @ [{f}], mOnlyModified := (mOnlyModified r \<and> f = MODIFIED)\<rparr>"

definition setOnlyModified :: "bool \<Rightarrow> RevisionFile \<Rightarrow> RevisionFile" where
  "setOnlyModified b r = r\<lparr>mOnlyModified := b\<rparr>"

definition statusCmp :: "RevisionFile \<Rightarrow> int \<Rightarrow> StatusFlag \<Rightarrow> bool option" where
  "statusCmp r i f = map_option (\<lambda>w. f \<in> w) (QVector_at (status r) i)"

definition appendStatus :: "int \<Rightarrow> StatusFlag \<Rightarrow> RevisionFile \<Rightarrow> RevisionFile option" where
  "appendStatus i f r =
     (if 0 \<le> i \<and> i < int (length (status r))
      then Some (r\<lparr>status := (status r)[nat i := insert f (status r ! nat i)]\<rparr>)
      else None)"

text \<open>
  \<open>appendExtStatus\<close> gives the entry appended last its extended-status string; the
  vector is as long as the position of the latest renamed or copied entry (the note in
  \<open>Git::setExtStatus\<close>), entries before it without one hold the empty string.
\<close>

definition QVector_resize :: "nat \<Rightarrow> string list \<Rightarrow> string list" where
  "QVector_resize n v = take n v @ replicate (n - length v) []"

definition appendExtStatus :: "string \<Rightarrow> RevisionFile \<Rightarrow> RevisionFile" where
  "appendExtStatus info r =
     r\<lparr>extStatus := QVector_resize (length (status r) - 1) (extStatus r) @ [info]\<rparr>"

definition extendedStatus :: "RevisionFile \<Rightarrow> int \<Rightarrow> string" where
  "extendedStatus r i =
     (if 0 \<le> i \<and> i < int (length (extStatus r)) then extStatus r ! nat i else [])"


section \<open>The name tables and the FileNamesLoader\<close>

type_synonym addr = nat

text \<open>
  \<open>FileNamesLoader\<close> holds a pointer to the \<open>RevisionFile\<close> being filled (\<open>nullptr\<close>
  is \<open>None\<close>) and the buffered directory and file indices.
\<close>

record FileNamesLoader =
  rf :: "addr option"
  rfDirs :: "int list"
  rfNames :: "int list"

definition FileNamesLoader_new :: FileNamesLoader where
  "FileNamesLoader_new = \<lparr>rf = None, rfDirs = [], rfNames = []\<rparr>"

text \<open>
  \<open>WorkingDirInfo\<close>: the three raw texts the working-directory view is built from.
\<close>

record WorkingDirInfo =
  diffIndex :: string
  diffIndexCached :: string
  otherFiles :: "string list"

text \<open>
  A \<open>CommitInfo\<close> is built in two places of git.cpp: from one record of the log
  stream and its running number, and from explicit fields for the working directory
  (the last field is \<open>isDiffCache\<close>). The class itself is not among the sources, so
  the model keeps the constructor arguments.
\<close>

datatype CommitInfo =
    CommitInfo_record string int
  | CommitInfo_fields string "string list" string int string string int bool

text \<open>
  Modelled from the spec: the class \<open>RevisionsCache\<close> is not among the sources. The
  model keeps its "mapping from commit id to \<open>RevisionFile\<close>" (\<open>revisionFiles\<close>) and,
  for the order of effects, the calls git.cpp makes on the cache and the signals it
  emits, oldest first (\<open>trace\<close>).
\<close>

datatype Event =
    CacheConfigure int
  | CacheInsertRevisionFile string RevisionFile
  | CacheUpdateWipCommit CommitInfo
  | CacheInsertCommitInfo CommitInfo
  | SignalLoadingStarted
  | SignalLoadingFinished

text \<open>
  The state of the \<open>Git\<close> object that the modelled functions use: the two name
  tables with their hashes, the working-directory texts, the cache, and the
  \<open>RevisionFile\<close> objects under construction, by address (the loader points at one of
  them, and \<open>Git::fakeWorkDirRevFile\<close> fills two through one loader).
\<close>

record Git =
  mDirNames :: "string list"
  mFileNames :: "string list"
  mDirNamesMap :: "string \<rightharpoonup> int"
  mFileNamesMap :: "string \<rightharpoonup> int"
  objects :: "addr \<Rightarrow> RevisionFile"
  workingDirInfo :: WorkingDirInfo
  mWorkingDir :: string
  revisionFiles :: "string \<rightharpoonup> RevisionFile"
  trace :: "Event list"
  isLoading :: bool

definition Git_new :: Git where
  "Git_new =
     \<lparr>mDirNames = [], mFileNames = [], mDirNamesMap = Map.empty, mFileNamesMap = Map.empty,
      objects = (\<lambda>_. RevisionFile_new),
      workingDirInfo = \<lparr>diffIndex = [], diffIndexCached = [], otherFiles = []\<rparr>,
      mWorkingDir = [], revisionFiles = Map.empty, trace = [], isLoading = False\<rparr>"

definition updateObject :: "addr \<Rightarrow> (RevisionFile \<Rightarrow> RevisionFile) \<Rightarrow> Git \<Rightarrow> Git" where
  "updateObject a f g = g\<lparr>objects := (objects g)(a := f (objects g a))\<rparr>"

text \<open>
  \<open>Git::flushFileNames\<close>. The loop reads \<open>fl.rfNames.at(i)\<close> for every position of
  \<open>fl.rfDirs\<close>: out of range when there are fewer names than directories.
\<close>

definition flushFileNames :: "FileNamesLoader \<Rightarrow> Git \<Rightarrow> (FileNamesLoader \<times> Git) option" where
  "flushFileNames fl g =
     (case rf fl of
        None \<Rightarrow> Some (fl, g)
      | Some a \<Rightarrow>
          if length (rfNames fl) < length (rfDirs fl) then None
          else Some (fl\<lparr>rf := None, rfDirs := [], rfNames := []\<rparr>,
                     updateObject a
                       (\<lambda>r. r\<lparr>pathsIdx := rfDirs fl @ take (length (rfDirs fl)) (rfNames fl)\<rparr>) g))"

text \<open>The two table look-ups of \<open>Git::appendFileName\<close>, each with its insertion.\<close>

definition internDir :: "string \<Rightarrow> FileNamesLoader \<times> Git \<Rightarrow> FileNamesLoader \<times> Git" where
  "internDir dr = (\<lambda>(fl, g).
     case mDirNamesMap g dr of
       None \<Rightarrow>
         (let idx = int (length (mDirNames g))
          in (fl\<lparr>rfDirs := rfDirs fl @ [idx]\<rparr>,
              g\<lparr>mDirNamesMap := (mDirNamesMap g)(dr \<mapsto> idx), mDirNames := mDirNames g @ [dr]\<rparr>))
     | Some i \<Rightarrow> (fl\<lparr>rfDirs := rfDirs fl @ [i]\<rparr>, g))"

definition internName :: "string \<Rightarrow> FileNamesLoader \<times> Git \<Rightarrow> FileNamesLoader \<times> Git" where
  "internName nm = (\<lambda>(fl, g).
     case mFileNamesMap g nm of
       None \<Rightarrow>
         (let idx = int (length (mFileNames g))
          in (fl\<lparr>rfNames := rfNames fl @ [idx]\<rparr>,
              g\<lparr>mFileNamesMap := (mFileNamesMap g)(nm \<mapsto> idx), mFileNames := mFileNames g @ [nm]\<rparr>))
     | Some i \<Rightarrow> (fl\<lparr>rfNames := rfNames fl @ [i]\<rparr>, g))"

definition appendFileName :: "addr \<Rightarrow> string \<Rightarrow> FileNamesLoader \<Rightarrow> Git \<Rightarrow> (FileNamesLoader \<times> Git) option" where
  "appendFileName a name fl g = do {
     (fl1, g1) \<leftarrow> (if rf fl \<noteq> Some a
                    then do { (fl0, g0) \<leftarrow> flushFileNames fl g; Some (fl0\<lparr>rf := Some a\<rparr>, g0) }
                    else Some (fl, g));
     let idx = QString_lastIndexOf name CHR ''/'' + 1;
     let dr = QString_left name idx;
     let nm = QString_mid name idx (- 1);
     Some (internName nm (internDir dr (fl1, g1)))
   }"


section \<open>The diff-record parser\<close>

abbreviation tab :: char where "tab \<equiv> CHR 0x09"
abbreviation newline :: char where "newline \<equiv> CHR 0x0A"

text \<open>
  \<open>Git::setExtStatus\<close>. \<open>type\<close> is the status token with its first character removed
  (\<open>type.remove(0, 1)\<close>); the similarity is read from it, and so is \<open>type.at(0)\<close> in the
  test for a rename.
\<close>

definition setExtStatus :: "addr \<Rightarrow> string \<Rightarrow> int \<Rightarrow> FileNamesLoader \<Rightarrow> Git \<Rightarrow> (FileNamesLoader \<times> Git) option" where
  "setExtStatus a rowSt parNum fl g =
     (let sl = QString_split_skipEmpty rowSt tab in
      if length sl \<noteq> 3 then Some (fl, g)
      else
        (let type = QString_remove_first (sl ! 0);
             orig = sl ! 1;
             dest = sl ! 2;
             extStatusInfo = orig @ '' --> '' @ dest @ '' ('' @ QString_number (QString_toInt type) @ ''%)''
         in do {
           (fl1, g1) \<leftarrow> appendFileName a dest fl g;
           let g2 = updateObject a (\<lambda>r. r\<lparr>mergeParent := mergeParent r @ [parNum]\<rparr>) g1;
           let g3 = updateObject a (setStatus_flag NEW) g2;
           let g4 = updateObject a (appendExtStatus extStatusInfo) g3;
           c \<leftarrow> QString_at type 0;
           (fl5, g5) \<leftarrow>
             (if c = CHR ''R''
              then do {
                (fl6, g6) \<leftarrow> appendFileName a orig fl1 g4;
                let g7 = updateObject a (\<lambda>r. r\<lparr>mergeParent := mergeParent r @ [parNum]\<rparr>) g6;
                let g8 = updateObject a (setStatus_flag DELETED) g7;
                Some (fl6, updateObject a (appendExtStatus extStatusInfo) g8)
              }
              else Some (fl1, g4));
           Some (fl5, updateObject a (setOnlyModified False) g5)
         }))"

text \<open>\<open>Git::parseDiffFormatLine\<close>, with the fixed offsets 97, 98 and 99 of the source.\<close>

definition parseDiffFormatLine :: "(string \<Rightarrow> StatusFlag set) \<Rightarrow> addr \<Rightarrow> string \<Rightarrow> int \<Rightarrow> FileNamesLoader \<Rightarrow> Git \<Rightarrow> (FileNamesLoader \<times> Git) option" where
  "parseDiffFormatLine dec a line parNum fl g = do {
     c1 \<leftarrow> QString_at line 1;
     if c1 = CHR '':''
     then do {
       (fl1, g1) \<leftarrow> appendFileName a (QString_section_last line tab) fl g;
       let g2 = updateObject a (setStatus_code dec ''M'') g1;
       Some (fl1, updateObject a (\<lambda>r. r\<lparr>mergeParent := mergeParent r @ [parNum]\<rparr>) g2)
     }
     else do {
       c98 \<leftarrow> QString_at line 98;
       if c98 = tab
       then do {
         (fl1, g1) \<leftarrow> appendFileName a (QString_mid line 99 (- 1)) fl g;
         c97 \<leftarrow> QString_at line 97;
         let g2 = updateObject a (setStatus_code dec [c97]) g1;
         Some (fl1, updateObject a (\<lambda>r. r\<lparr>mergeParent := mergeParent r @ [parNum]\<rparr>) g2)
       }
       else setExtStatus a (QString_mid line 97 (- 1)) parNum fl g
     }
   }"

text \<open>
  One pass of the body of the \<open>while\<close> loop of \<open>Git::parseDiffFormat\<close> on the line
  already cut out of the buffer: the new parent counter, loader and state.
\<close>

definition parseDiffFormat_step :: "(string \<Rightarrow> StatusFlag set) \<Rightarrow> addr \<Rightarrow> string \<Rightarrow> int \<Rightarrow> FileNamesLoader \<Rightarrow> Git \<Rightarrow> (int \<times> FileNamesLoader \<times> Git) option" where
  "parseDiffFormat_step dec a line parNum fl g = do {
     c0 \<leftarrow> QString_at line 0;
     if c0 = CHR '':''
     then map_option (Pair parNum) (parseDiffFormatLine dec a line parNum fl g)
     else Some (parNum + 1, fl, g)
   }"

text \<open>
  The \<open>while\<close> loop of \<open>Git::parseDiffFormat\<close>: the loop variables are arguments, and
  the next end of line is searched from \<open>endPos + 99\<close>.
\<close>

function parseDiffFormat_loop :: "(string \<Rightarrow> StatusFlag set) \<Rightarrow> addr \<Rightarrow> string \<Rightarrow> int \<Rightarrow> int \<Rightarrow> int \<Rightarrow> FileNamesLoader \<Rightarrow> Git \<Rightarrow> (int \<times> FileNamesLoader \<times> Git) option" where
  "parseDiffFormat_loop dec a buf parNum startPos endPos fl g =
     (if endPos \<noteq> - 1
      then
        (case parseDiffFormat_step dec a (QString_mid buf startPos (endPos - startPos)) parNum fl g of
           None \<Rightarrow> None
         | Some (parNum', fl', g') \<Rightarrow>
             parseDiffFormat_loop dec a buf parNum' (endPos + 1)
               (QString_indexOf buf newline (endPos + 99)) fl' g')
      else Some (parNum, fl, g))"
  by pat_completeness auto
termination
proof (relation "measure (\<lambda>(dec, a, buf, parNum, startPos, endPos, fl, g).
          if endPos = - 1 then 0 else 1 + nat (int (length buf) - endPos))", goal_cases)
  case 1
  show ?case by simp
next
  case (2 dec a buf parNum startPos endPos fl g x2 x y xa ya)
  have aux: "indexOf_aux c s i = - 1 \<or> (i \<le> indexOf_aux c s i \<and> indexOf_aux c s i < i + int (length s))"
    for c s i
  proof (induction s arbitrary: i)
    case Nil
    show ?case by simp
  next
    case (Cons z zs)
    from Cons.IH [of "i + 1"] show ?case by auto
  qed
  define pos where "pos = endPos + 99"
  define f where "f = (if pos < 0 then max (pos + int (length buf)) 0 else pos)"
  have f: "pos \<le> f" "0 \<le> f"
    by (auto simp: f_def)
  have range: "QString_indexOf buf newline pos = - 1
      \<or> (pos \<le> QString_indexOf buf newline pos \<and> 0 \<le> QString_indexOf buf newline pos
          \<and> QString_indexOf buf newline pos < int (length buf))"
  proof (cases "f < int (length buf)")
    case True
    with aux [of newline "drop (nat f) buf" f] f show ?thesis
      unfolding QString_indexOf_def Let_def f_def [symmetric] by auto
  next
    case False
    then show ?thesis
      unfolding QString_indexOf_def Let_def f_def [symmetric] by simp
  qed
  with 2(1) show ?case
    unfolding pos_def by auto
qed

definition parseDiffFormat :: "(string \<Rightarrow> StatusFlag set) \<Rightarrow> addr \<Rightarrow> string \<Rightarrow> FileNamesLoader \<Rightarrow> Git \<Rightarrow> (FileNamesLoader \<times> Git) option" where
  "parseDiffFormat dec a buf fl g =
     map_option snd (parseDiffFormat_loop dec a buf 1 0 (QString_indexOf buf newline 0) fl g)"


section \<open>Looking a file up by path\<close>

text \<open>\<open>Git::filePath\<close>: directory and file name of entry \<open>i\<close>, recombined.\<close>

definition filePath :: "Git \<Rightarrow> RevisionFile \<Rightarrow> int \<Rightarrow> string option" where
  "filePath g r i = do {
     di \<leftarrow> dirAt r i;
     d \<leftarrow> QVector_at (mDirNames g) di;
     ni \<leftarrow> nameAt r i;
     n \<leftarrow> QVector_at (mFileNames g) ni;
     Some (d @ n)
   }"

text \<open>
  The \<open>for\<close> loop of \<open>Git::findFileIndex\<close>; the last argument is the number of
  entries still to visit (\<open>cnt - i\<close>).
\<close>

primrec findFileIndex_loop :: "Git \<Rightarrow> RevisionFile \<Rightarrow> string \<Rightarrow> string \<Rightarrow> int \<Rightarrow> nat \<Rightarrow> int option" where
  "findFileIndex_loop g r dr nm i 0 = Some (- 1)"
| "findFileIndex_loop g r dr nm i (Suc n) = do {
     ni \<leftarrow> nameAt r i;
     isRevFile \<leftarrow> QVector_at (mFileNames g) ni;
     di \<leftarrow> dirAt r i;
     isRevDir \<leftarrow> QVector_at (mDirNames g) di;
     if isRevFile = nm \<and> isRevDir = dr then Some i
     else findFileIndex_loop g r dr nm (i + 1) n
   }"

definition findFileIndex :: "Git \<Rightarrow> RevisionFile \<Rightarrow> string \<Rightarrow> int option" where
  "findFileIndex g r name =
     (if name = [] then Some (- 1)
      else
        (let idx = QString_lastIndexOf name CHR ''/'' + 1;
             dr = QString_left name idx;
             nm = QString_mid name idx (- 1)
         in findFileIndex_loop g r dr nm 0 (nat (count r))))"


section \<open>The working-directory pseudo revision\<close>

text \<open>The loop of \<open>Git::fakeWorkDirRevFile\<close> over the untracked files.\<close>

primrec appendOtherFiles :: "addr \<Rightarrow> string list \<Rightarrow> FileNamesLoader \<Rightarrow> Git \<Rightarrow> (FileNamesLoader \<times> Git) option" where
  "appendOtherFiles a [] fl g = Some (fl, g)"
| "appendOtherFiles a (it # rest) fl g = do {
     (fl1, g1) \<leftarrow> appendFileName a it fl g;
     let g2 = updateObject a (setStatus_flag UNKNOWN) g1;
     let g3 = updateObject a (\<lambda>r. r\<lparr>mergeParent := mergeParent r @ [1]\<rparr>) g2;
     appendOtherFiles a rest fl1 g3
   }"

definition updateObject_checked :: "addr \<Rightarrow> (RevisionFile \<Rightarrow> RevisionFile option) \<Rightarrow> Git \<Rightarrow> Git option" where
  "updateObject_checked a f g =
     map_option (\<lambda>r. g\<lparr>objects := (objects g)(a := r)\<rparr>) (f (objects g a))"

text \<open>
  The body of the second loop of \<open>Git::fakeWorkDirRevFile\<close> for position \<open>i\<close> of the
  baseline \<open>a\<close>, with the staged files at \<open>c\<close>. As in the source, the conflict test
  reads the staged files at the same \<open>i\<close>.
\<close>

definition markStaged_body :: "addr \<Rightarrow> addr \<Rightarrow> int \<Rightarrow> Git \<Rightarrow> Git option" where
  "markStaged_body a c i g = do {
     p \<leftarrow> filePath g (objects g a) i;
     k \<leftarrow> findFileIndex g (objects g c) p;
     if k \<noteq> - 1
     then do {
       conflict \<leftarrow> statusCmp (objects g c) i CONFLICT;
       g1 \<leftarrow> (if conflict then updateObject_checked a (appendStatus i CONFLICT) g else Some g);
       updateObject_checked a (appendStatus i IN_INDEX) g1
     }
     else Some g
   }"

text \<open>
  The loop \<open>for (i = 0; i < rf.count(); i++)\<close>; the body leaves \<open>pathsIdx\<close> and with
  it \<open>rf.count()\<close> alone, so the number of passes left is an argument.
\<close>

primrec markStaged_loop :: "addr \<Rightarrow> addr \<Rightarrow> int \<Rightarrow> nat \<Rightarrow> Git \<Rightarrow> Git option" where
  "markStaged_loop a c i 0 g = Some g"
| "markStaged_loop a c i (Suc n) g = do {
     g1 \<leftarrow> markStaged_body a c i g;
     markStaged_loop a c (i + 1) n g1
   }"

text \<open>
  \<open>Git::fakeWorkDirRevFile\<close>. Its two local \<open>RevisionFile\<close>s live at two distinct
  addresses: \<open>rf\<close> at 0 and \<open>cachedFiles\<close> at 1. The result is the value of \<open>rf\<close>.
\<close>

definition fakeWorkDirRevFile :: "(string \<Rightarrow> StatusFlag set) \<Rightarrow> WorkingDirInfo \<Rightarrow> Git \<Rightarrow> (RevisionFile \<times> Git) option" where
  "fakeWorkDirRevFile dec wd g = do {
     let fl = FileNamesLoader_new;
     let g0 = updateObject 0 (\<lambda>_. RevisionFile_new) g;
     (fl1, g1) \<leftarrow> parseDiffFormat dec 0 (diffIndex wd) fl g0;
     let g2 = updateObject 0 (setOnlyModified False) g1;
     (fl3, g3) \<leftarrow> appendOtherFiles 0 (otherFiles wd) fl1 g2;
     let g4 = updateObject 1 (\<lambda>_. RevisionFile_new) g3;
     (fl5, g5) \<leftarrow> parseDiffFormat dec 1 (diffIndexCached wd) fl3 g4;
     (fl6, g6) \<leftarrow> flushFileNames fl5 g5;
     g7 \<leftarrow> markStaged_loop 0 1 0 (nat (count (objects g6 0))) g6;
     Some (objects g7 0, g7)
   }"


section \<open>The revision cache and the commit stream\<close>












section \<open>Definitions used in the statements and proofs\<close>

text \<open>
  Nothing below is part of the program: these are names for parts of it, the
  predicates of the invariants, and the concrete inputs the theorems are run on.
\<close>

subsection \<open>Status letters and raw lines of the examples\<close>

text \<open>
  The decoding of status letters used in the examples: git's letters, \<open>U\<close> (unmerged)
  being a modified file with the conflict flag, an unknown letter a modified file.
\<close>

definition gitStatusLetters :: "string \<Rightarrow> StatusFlag set" where
  "gitStatusLetters s =
     (if s = ''U'' then {MODIFIED, CONFLICT}
      else if s = ''D'' then {DELETED}
      else if s = ''A'' then {NEW}
      else if s = ''?'' then {UNKNOWN}
      else {MODIFIED})"

text \<open>The fixed-width prefix of a raw change line, 97 characters: modes and hashes.\<close>

definition rawPrefix :: string where
  "rawPrefix = '':100644 100644 '' @ replicate 40 CHR ''a'' @ '' '' @ replicate 40 CHR ''b'' @ '' ''"

subsection \<open>The loader and the interner\<close>

text \<open>
  \<open>dirKey\<close> and \<open>fileKey\<close> are the two keys \<open>Git::appendFileName\<close> cuts a path into
  (\<open>dr\<close> and \<open>nm\<close> in the source).
\<close>

definition loaderExample :: FileNamesLoader where
  "loaderExample = \<lparr>rf = Some 0, rfDirs = [0, 1], rfNames = [5, 6]\<rparr>"

definition dirKey :: "string \<Rightarrow> string" where
  "dirKey name = QString_left name (QString_lastIndexOf name CHR ''/'' + 1)"

definition fileKey :: "string \<Rightarrow> string" where
  "fileKey name = QString_mid name (QString_lastIndexOf name CHR ''/'' + 1) (- 1)"

definition afterOnePath :: "(FileNamesLoader \<times> Git)" where
  "afterOnePath = the (appendFileName 0 ''a.txt'' FileNamesLoader_new Git_new)"

subsection \<open>Rename and copy lines\<close>

text \<open>
  The three updates \<open>Git::setExtStatus\<close> makes for one entry of a rename or a copy, and
  the extended-status text it builds.
\<close>

definition addExtEntry :: "addr \<Rightarrow> int \<Rightarrow> StatusFlag \<Rightarrow> string \<Rightarrow> Git \<Rightarrow> Git" where
  "addExtEntry a parNum f info g =
     updateObject a (appendExtStatus info)
       (updateObject a (setStatus_flag f)
         (updateObject a (\<lambda>r. r\<lparr>mergeParent := mergeParent r @ [parNum]\<rparr>) g))"

definition extInfo :: "string \<Rightarrow> string \<Rightarrow> string \<Rightarrow> string" where
  "extInfo type orig dest =
     orig @ '' --> '' @ dest @ '' ('' @ QString_number (QString_toInt type) @ ''%)''"

definition copyLine :: string where
  "copyLine = rawPrefix @ ''C80'' @ [tab] @ ''a.txt'' @ [tab] @ ''b.txt''"

definition renameLine :: string where
  "renameLine = rawPrefix @ ''R90'' @ [tab] @ ''src/old.txt'' @ [tab] @ ''src/new.txt''"

definition boundLoader :: FileNamesLoader where
  "boundLoader = \<lparr>rf = Some 0, rfDirs = [], rfNames = []\<rparr>"

subsection \<open>The records of a buffer\<close>

text \<open>
  The reading of the specification, to compare the loop with: the newline-terminated
  records of the buffer (the text after the last newline is not one), and the loop
  body run on each of them in turn.
\<close>

definition records :: "string \<Rightarrow> string list" where
  "records buf = butlast (splitKeep newline buf)"

primrec parseRecords :: "(string \<Rightarrow> StatusFlag set) \<Rightarrow> addr \<Rightarrow> string list \<Rightarrow> int \<Rightarrow> FileNamesLoader \<Rightarrow> Git \<Rightarrow> (int \<times> FileNamesLoader \<times> Git) option" where
  "parseRecords dec a [] parNum fl g = Some (parNum, fl, g)"
| "parseRecords dec a (line # rest) parNum fl g =
     (case parseDiffFormat_step dec a line parNum fl g of
        None \<Rightarrow> None
      | Some (parNum', fl', g') \<Rightarrow> parseRecords dec a rest parNum' fl' g')"

definition fastLine :: string where
  "fastLine = rawPrefix @ ''M'' @ [tab] @ ''f''"

definition longLinesBuffer :: string where
  "longLinesBuffer = ''abc'' @ [newline] @ fastLine @ [newline]"

text \<open>
  The commit-id line that \<open>git diff-tree -m\<close> prints before the changes against each
  parent of a merge, and the raw diff of a merge against its two parents: one changed
  file in each section.
\<close>

definition shaLine :: string where
  "shaLine = replicate 40 CHR ''c''"

definition mergeBuffer :: string where
  "mergeBuffer = shaLine @ newline # fastLine @ newline # shaLine @ newline # fastLine @ [newline]"

subsection \<open>Invariants of the parser\<close>

text \<open>An update of a \<open>RevisionFile\<close> that keeps \<open>mergeParent\<close> and \<open>pathsIdx\<close>.\<close>

definition keepsEntries :: "(RevisionFile \<Rightarrow> RevisionFile) \<Rightarrow> bool" where
  "keepsEntries f = (\<forall>r. mergeParent (f r) = mergeParent r \<and> pathsIdx (f r) = pathsIdx r)"






subsection \<open>The working-directory example\<close>

text \<open>A raw change line of the fast path, and the two updates the parser makes for it.\<close>

definition rawLine :: "char \<Rightarrow> string \<Rightarrow> string" where
  "rawLine c path = rawPrefix @ c # tab # path"

definition fastEntry :: "(string \<Rightarrow> StatusFlag set) \<Rightarrow> addr \<Rightarrow> char \<Rightarrow> int \<Rightarrow> Git \<Rightarrow> Git" where
  "fastEntry dec a c parNum g =
     updateObject a (\<lambda>r. r\<lparr>mergeParent := mergeParent r @ [parNum]\<rparr>)
       (updateObject a (setStatus_code dec [c]) g)"

definition wdConflict :: WorkingDirInfo where
  "wdConflict =
     \<lparr>diffIndex = rawLine CHR ''M'' ''a.txt'' @ newline # rawLine CHR ''M'' ''x.txt'' @ [newline],
      diffIndexCached = rawLine CHR ''U'' ''x.txt'' @ newline # rawLine CHR ''M'' ''z.txt'' @ [newline],
      otherFiles = []\<rparr>"

text \<open>
  The values \<open>Git::fakeWorkDirRevFile\<close> reaches on \<open>wdConflict\<close>: the baseline and the
  staged files once flushed, and the name tables.
\<close>

definition baselineConflict :: RevisionFile where
  "baselineConflict =
     \<lparr>pathsIdx = [0, 0, 0, 1], mergeParent = [1, 1], status = [{MODIFIED}, {MODIFIED}],
      extStatus = [], mOnlyModified = False\<rparr>"

definition stagedConflict :: RevisionFile where
  "stagedConflict =
     \<lparr>pathsIdx = [0, 0, 1, 2], mergeParent = [1, 1], status = [{MODIFIED, CONFLICT}, {MODIFIED}],
      extStatus = [], mOnlyModified = False\<rparr>"

definition tablesConflict :: Git where
  "tablesConflict =
     Git_new\<lparr>mDirNamesMap := [[] \<mapsto> 0], mDirNames := [[]],
       mFileNamesMap := [''a.txt'' \<mapsto> 0, ''x.txt'' \<mapsto> 1, ''z.txt'' \<mapsto> 2],
       mFileNames := [''a.txt'', ''x.txt'', ''z.txt'']\<rparr>"

subsection \<open>The commit stream\<close>


















section \<open>The flush of the loader\<close>

lemma flushFileNames_unbound: "rf fl = None \<Longrightarrow> flushFileNames fl g = Some (fl, g)"
  by (simp add: flushFileNames_def)

lemma flushFileNames_result_unbound:
  "flushFileNames fl g = Some (fl', g') \<Longrightarrow> rf fl' = None"
  by (auto simp: flushFileNames_def split: option.splits if_splits)

lemma flushFileNames_tables:
  "flushFileNames fl g = Some (fl', g') \<Longrightarrow>
   mDirNames g' = mDirNames g \<and> mFileNames g' = mFileNames g \<and>
   mDirNamesMap g' = mDirNamesMap g \<and> mFileNamesMap g' = mFileNamesMap g"
  by (auto simp: flushFileNames_def updateObject_def split: option.splits if_splits)

text \<open>
  C10. Flushing a loader that is bound to no \<open>RevisionFile\<close> changes nothing; a flush
  that returns leaves the loader unbound, so flushing twice in succession is flushing
  once; and the flush of a loader bound to \<open>a\<close> whose two buffers have the same length
  writes the directory indices followed by the file indices into \<open>pathsIdx\<close> of \<open>a\<close>
  as one block, empties both buffers and unbinds the loader.
\<close>

theorem flushFileNames_idempotent:
  "(rf fl0 = None \<longrightarrow> flushFileNames fl0 g0 = Some (fl0, g0)) \<and>
   (flushFileNames fl g = Some (fl', g') \<longrightarrow> flushFileNames fl' g' = Some (fl', g')) \<and>
   (do { (fl1, g1) \<leftarrow> flushFileNames fl g; flushFileNames fl1 g1 } = flushFileNames fl g) \<and>
   (rf fl = Some a \<and> length (rfDirs fl) = length (rfNames fl) \<longrightarrow>
      flushFileNames fl g =
        Some (\<lparr>rf = None, rfDirs = [], rfNames = []\<rparr>,
              g\<lparr>objects := (objects g)(a := (objects g a)\<lparr>pathsIdx := rfDirs fl @ rfNames fl\<rparr>)\<rparr>))"
proof (intro conjI impI)
  assume "rf fl0 = None"
  then show "flushFileNames fl0 g0 = Some (fl0, g0)"
    by (rule flushFileNames_unbound)
next
  assume "flushFileNames fl g = Some (fl', g')"
  then have "rf fl' = None"
    by (rule flushFileNames_result_unbound)
  then show "flushFileNames fl' g' = Some (fl', g')"
    by (rule flushFileNames_unbound)
next
  show "do { (fl1, g1) \<leftarrow> flushFileNames fl g; flushFileNames fl1 g1 } = flushFileNames fl g"
  proof (cases "flushFileNames fl g")
    case None
    then show ?thesis by simp
  next
    case (Some p)
    obtain fl1 g1 where p: "p = (fl1, g1)" by (cases p)
    from Some p have "rf fl1 = None"
      by (auto dest: flushFileNames_result_unbound)
    then have "flushFileNames fl1 g1 = Some (fl1, g1)"
      by (rule flushFileNames_unbound)
    with Some p show ?thesis by simp
  qed
next
  assume "rf fl = Some a \<and> length (rfDirs fl) = length (rfNames fl)"
  then show "flushFileNames fl g =
        Some (\<lparr>rf = None, rfDirs = [], rfNames = []\<rparr>,
              g\<lparr>objects := (objects g)(a := (objects g a)\<lparr>pathsIdx := rfDirs fl @ rfNames fl\<rparr>)\<rparr>)"
    by (simp add: flushFileNames_def updateObject_def)
qed

theorem flushFileNames_idempotent_witness:
  "rf FileNamesLoader_new = None \<and>
   flushFileNames FileNamesLoader_new Git_new = Some (FileNamesLoader_new, Git_new) \<and>
   rf loaderExample = Some 0 \<and> length (rfDirs loaderExample) = length (rfNames loaderExample) \<and>
   flushFileNames loaderExample Git_new =
     Some (FileNamesLoader_new,
           Git_new\<lparr>objects := (objects Git_new)(0 := RevisionFile_new\<lparr>pathsIdx := [0, 1, 5, 6]\<rparr>)\<rparr>) \<and>
   flushFileNames FileNamesLoader_new
       (Git_new\<lparr>objects := (objects Git_new)(0 := RevisionFile_new\<lparr>pathsIdx := [0, 1, 5, 6]\<rparr>)\<rparr>) =
     Some (FileNamesLoader_new,
           Git_new\<lparr>objects := (objects Git_new)(0 := RevisionFile_new\<lparr>pathsIdx := [0, 1, 5, 6]\<rparr>)\<rparr>)"
proof -
  have u: "rf FileNamesLoader_new = None"
    by (simp add: FileNamesLoader_new_def)
  have b: "rf loaderExample = Some 0 \<and> length (rfDirs loaderExample) = length (rfNames loaderExample)"
    by (simp add: loaderExample_def)
  have o: "objects Git_new 0 = RevisionFile_new"
    by (simp add: Git_new_def)
  from flushFileNames_idempotent [of FileNamesLoader_new Git_new loaderExample Git_new _ _ 0] u b
  have 1: "flushFileNames FileNamesLoader_new Git_new = Some (FileNamesLoader_new, Git_new)"
    and 2: "flushFileNames loaderExample Git_new =
      Some (\<lparr>rf = None, rfDirs = [], rfNames = []\<rparr>,
            Git_new\<lparr>objects := (objects Git_new)(0 := (objects Git_new 0)\<lparr>pathsIdx := rfDirs loaderExample @ rfNames loaderExample\<rparr>)\<rparr>)"
    by blast+
  from 2 have 3: "flushFileNames loaderExample Git_new =
     Some (FileNamesLoader_new,
           Git_new\<lparr>objects := (objects Git_new)(0 := RevisionFile_new\<lparr>pathsIdx := [0, 1, 5, 6]\<rparr>)\<rparr>)"
    by (simp add: o FileNamesLoader_new_def loaderExample_def)
  from flushFileNames_idempotent [of FileNamesLoader_new Git_new loaderExample Git_new
      FileNamesLoader_new "Git_new\<lparr>objects := (objects Git_new)(0 := RevisionFile_new\<lparr>pathsIdx := [0, 1, 5, 6]\<rparr>)\<rparr>" 0] 3
  have 4: "flushFileNames FileNamesLoader_new
       (Git_new\<lparr>objects := (objects Git_new)(0 := RevisionFile_new\<lparr>pathsIdx := [0, 1, 5, 6]\<rparr>)\<rparr>) =
     Some (FileNamesLoader_new,
           Git_new\<lparr>objects := (objects Git_new)(0 := RevisionFile_new\<lparr>pathsIdx := [0, 1, 5, 6]\<rparr>)\<rparr>)"
    by blast
  from u b 1 3 4 show ?thesis by blast
qed


section \<open>The name interner\<close>

lemma appendFileName_bound:
  "rf fl = Some a \<Longrightarrow>
   appendFileName a name fl g = Some (internName (fileKey name) (internDir (dirKey name) (fl, g)))"
  by (simp add: appendFileName_def dirKey_def fileKey_def Let_def)

lemma appendFileName_rebind:
  "rf fl \<noteq> Some a \<Longrightarrow>
   appendFileName a name fl g =
     (case flushFileNames fl g of
        None \<Rightarrow> None
      | Some (fl0, g0) \<Rightarrow>
          Some (internName (fileKey name) (internDir (dirKey name) (fl0\<lparr>rf := Some a\<rparr>, g0))))"
  by (simp add: appendFileName_def dirKey_def fileKey_def Let_def split: option.splits)

lemma internDir_found:
  "mDirNamesMap g dr = Some i \<Longrightarrow> internDir dr (fl, g) = (fl\<lparr>rfDirs := rfDirs fl @ [i]\<rparr>, g)"
  by (simp add: internDir_def)

lemma internDir_absent:
  "mDirNamesMap g dr = None \<Longrightarrow>
   internDir dr (fl, g) =
     (fl\<lparr>rfDirs := rfDirs fl @ [int (length (mDirNames g))]\<rparr>,
      g\<lparr>mDirNamesMap := (mDirNamesMap g)(dr \<mapsto> int (length (mDirNames g))),
        mDirNames := mDirNames g @ [dr]\<rparr>)"
  by (simp add: internDir_def Let_def)

lemma internName_found:
  "mFileNamesMap g nm = Some i \<Longrightarrow> internName nm (fl, g) = (fl\<lparr>rfNames := rfNames fl @ [i]\<rparr>, g)"
  by (simp add: internName_def)

lemma internName_absent:
  "mFileNamesMap g nm = None \<Longrightarrow>
   internName nm (fl, g) =
     (fl\<lparr>rfNames := rfNames fl @ [int (length (mFileNames g))]\<rparr>,
      g\<lparr>mFileNamesMap := (mFileNamesMap g)(nm \<mapsto> int (length (mFileNames g))),
        mFileNames := mFileNames g @ [nm]\<rparr>)"
  by (simp add: internName_def Let_def)

text \<open>What one interning step does to the loader and to the tables.\<close>

lemma intern_effect:
  assumes "internName nm (internDir dr (fl, g)) = (fl', g')"
  shows "rf fl' = rf fl"
    and "rfDirs fl' = rfDirs fl @ [case mDirNamesMap g dr of None \<Rightarrow> int (length (mDirNames g)) | Some i \<Rightarrow> i]"
    and "rfNames fl' = rfNames fl @ [case mFileNamesMap g nm of None \<Rightarrow> int (length (mFileNames g)) | Some i \<Rightarrow> i]"
    and "mDirNames g' = (case mDirNamesMap g dr of None \<Rightarrow> mDirNames g @ [dr] | Some i \<Rightarrow> mDirNames g)"
    and "mFileNames g' = (case mFileNamesMap g nm of None \<Rightarrow> mFileNames g @ [nm] | Some i \<Rightarrow> mFileNames g)"
    and "mDirNamesMap g' = (case mDirNamesMap g dr of None \<Rightarrow> (mDirNamesMap g)(dr \<mapsto> int (length (mDirNames g))) | Some i \<Rightarrow> mDirNamesMap g)"
    and "mFileNamesMap g' = (case mFileNamesMap g nm of None \<Rightarrow> (mFileNamesMap g)(nm \<mapsto> int (length (mFileNames g))) | Some i \<Rightarrow> mFileNamesMap g)"
    and "objects g' = objects g"
  using assms
  by (auto simp: internDir_def internName_def Let_def split: option.splits)

lemma dirKey_empty [simp]: "dirKey [] = []"
  by (simp add: dirKey_def QString_left_def QString_lastIndexOf_def)

lemma fileKey_empty [simp]: "fileKey [] = []"
  by (simp add: fileKey_def QString_mid_def QString_lastIndexOf_def)

lemma appendFileName_effect:
  assumes "appendFileName a name fl g = Some (fl', g')"
  shows "rf fl' = Some a \<and>
    rfDirs fl' = (if rf fl = Some a \<or> rf fl = None then rfDirs fl else [])
       @ [case mDirNamesMap g (dirKey name) of None \<Rightarrow> int (length (mDirNames g)) | Some i \<Rightarrow> i] \<and>
    rfNames fl' = (if rf fl = Some a \<or> rf fl = None then rfNames fl else [])
       @ [case mFileNamesMap g (fileKey name) of None \<Rightarrow> int (length (mFileNames g)) | Some i \<Rightarrow> i] \<and>
    mDirNames g' = (case mDirNamesMap g (dirKey name) of
       None \<Rightarrow> mDirNames g @ [dirKey name] | Some i \<Rightarrow> mDirNames g) \<and>
    mFileNames g' = (case mFileNamesMap g (fileKey name) of
       None \<Rightarrow> mFileNames g @ [fileKey name] | Some i \<Rightarrow> mFileNames g) \<and>
    mDirNamesMap g' = (case mDirNamesMap g (dirKey name) of
       None \<Rightarrow> (mDirNamesMap g)(dirKey name \<mapsto> int (length (mDirNames g))) | Some i \<Rightarrow> mDirNamesMap g) \<and>
    mFileNamesMap g' = (case mFileNamesMap g (fileKey name) of
       None \<Rightarrow> (mFileNamesMap g)(fileKey name \<mapsto> int (length (mFileNames g))) | Some i \<Rightarrow> mFileNamesMap g)"
proof (cases "rf fl = Some a")
  case True
  with assms have i: "internName (fileKey name) (internDir (dirKey name) (fl, g)) = (fl', g')"
    by (simp add: appendFileName_bound)
  from intern_effect(1-7) [OF i] True show ?thesis
    by simp
next
  case False
  with assms obtain fl0 g0 where f: "flushFileNames fl g = Some (fl0, g0)"
    and i: "internName (fileKey name) (internDir (dirKey name) (fl0\<lparr>rf := Some a\<rparr>, g0)) = (fl', g')"
    by (auto simp: appendFileName_rebind split: option.splits)
  from f False have b: "rfDirs fl0 = (if rf fl = None then rfDirs fl else [])"
    "rfNames fl0 = (if rf fl = None then rfNames fl else [])"
    by (auto simp: flushFileNames_def split: option.splits if_splits)
  from intern_effect(1-7) [OF i] flushFileNames_tables [OF f] b False show ?thesis
    by (simp cong: option.case_cong)
qed

lemma appendFileName_returns:
  "rf fl = Some a \<or> rf fl = None \<or> length (rfDirs fl) \<le> length (rfNames fl) \<Longrightarrow>
   \<exists>fl' g'. appendFileName a name fl g = Some (fl', g')"
  by (cases "rf fl = Some a")
    (auto simp: appendFileName_bound appendFileName_rebind flushFileNames_def
      split: option.splits prod.splits)

text \<open>
  C6. An empty path is interned like any other path: the empty string is the directory
  key and the file key, each is appended to its table when it has no index yet, the
  loader ends bound to the target, and one directory index and one file index are
  appended to its buffers (which a flush emptied first when the loader was bound to
  another \<open>RevisionFile\<close>).
\<close>

theorem appendFileName_empty_path:
  assumes "appendFileName a [] fl g = Some (fl', g')"
  shows "rf fl' = Some a \<and>
    rfDirs fl' = (if rf fl = Some a \<or> rf fl = None then rfDirs fl else [])
       @ [case mDirNamesMap g [] of None \<Rightarrow> int (length (mDirNames g)) | Some i \<Rightarrow> i] \<and>
    rfNames fl' = (if rf fl = Some a \<or> rf fl = None then rfNames fl else [])
       @ [case mFileNamesMap g [] of None \<Rightarrow> int (length (mFileNames g)) | Some i \<Rightarrow> i] \<and>
    mDirNames g' = (case mDirNamesMap g [] of None \<Rightarrow> mDirNames g @ [[]] | Some i \<Rightarrow> mDirNames g) \<and>
    mFileNames g' = (case mFileNamesMap g [] of None \<Rightarrow> mFileNames g @ [[]] | Some i \<Rightarrow> mFileNames g) \<and>
    mDirNamesMap g' [] \<noteq> None \<and> mFileNamesMap g' [] \<noteq> None"
  using appendFileName_effect [OF assms]
  by (auto split: option.splits)

lemmas eval_intern = appendFileName_def flushFileNames_def internDir_def internName_def
  QString_lastIndexOf_def QString_left_def QString_mid_def FileNamesLoader_new_def Git_new_def
  updateObject_def Let_def

lemma afterOnePath_eval:
  "rf (fst afterOnePath) = Some 0 \<and> rfDirs (fst afterOnePath) = [0] \<and> rfNames (fst afterOnePath) = [0] \<and>
   mDirNames (snd afterOnePath) = [[]] \<and> mFileNames (snd afterOnePath) = [''a.txt''] \<and>
   mDirNamesMap (snd afterOnePath) [] = Some 0 \<and> mFileNamesMap (snd afterOnePath) [] = None"
  by (simp add: afterOnePath_def eval_intern)

theorem appendFileName_empty_path_witness:
  "appendFileName 0 [] (fst afterOnePath) (snd afterOnePath) \<noteq> None \<and>
   rf (fst (the (appendFileName 0 [] (fst afterOnePath) (snd afterOnePath)))) = Some 0 \<and>
   rfDirs (fst (the (appendFileName 0 [] (fst afterOnePath) (snd afterOnePath)))) = [0, 0] \<and>
   rfNames (fst (the (appendFileName 0 [] (fst afterOnePath) (snd afterOnePath)))) = [0, 1] \<and>
   mDirNames (snd (the (appendFileName 0 [] (fst afterOnePath) (snd afterOnePath)))) = [[]] \<and>
   mFileNames (snd (the (appendFileName 0 [] (fst afterOnePath) (snd afterOnePath)))) = [''a.txt'', []]"
proof -
  from appendFileName_returns [of "fst afterOnePath" 0 "[]" "snd afterOnePath"] afterOnePath_eval
  obtain fl' g' where r: "appendFileName 0 [] (fst afterOnePath) (snd afterOnePath) = Some (fl', g')"
    by auto
  from appendFileName_empty_path [OF r] afterOnePath_eval r show ?thesis
    by simp
qed

theorem appendFileName_empty_path_not_noop:
  "appendFileName 0 [] FileNamesLoader_new Git_new \<noteq> None \<and>
   appendFileName 0 [] FileNamesLoader_new Git_new \<noteq> Some (FileNamesLoader_new, Git_new) \<and>
   mDirNames Git_new = [] \<and> mFileNames Git_new = [] \<and>
   rfDirs FileNamesLoader_new = [] \<and> rfNames FileNamesLoader_new = [] \<and>
   mDirNames (snd (the (appendFileName 0 [] FileNamesLoader_new Git_new))) = [[]] \<and>
   mFileNames (snd (the (appendFileName 0 [] FileNamesLoader_new Git_new))) = [[]] \<and>
   rfDirs (fst (the (appendFileName 0 [] FileNamesLoader_new Git_new))) = [0] \<and>
   rfNames (fst (the (appendFileName 0 [] FileNamesLoader_new Git_new))) = [0]"
  by (simp add: eval_intern)

text \<open>
  C7. Interning a path a second time appends the same pair of indices to the loader
  as the first time and changes neither table nor hash; the first call makes each
  table at most one entry longer, keeps the old table as a prefix of the new one and
  keeps every index the hashes held.
\<close>

theorem appendFileName_idempotent:
  assumes "appendFileName a name fl g = Some (fl1, g1)"
  shows "\<exists>fl2 g2. appendFileName a name fl1 g1 = Some (fl2, g2) \<and>
    last (rfDirs fl2) = last (rfDirs fl1) \<and> last (rfNames fl2) = last (rfNames fl1) \<and>
    mDirNames g2 = mDirNames g1 \<and> mFileNames g2 = mFileNames g1 \<and>
    mDirNamesMap g2 = mDirNamesMap g1 \<and> mFileNamesMap g2 = mFileNamesMap g1 \<and>
    length (mDirNames g1) \<le> length (mDirNames g) + 1 \<and>
    length (mFileNames g1) \<le> length (mFileNames g) + 1 \<and>
    prefix (mDirNames g) (mDirNames g1) \<and> prefix (mFileNames g) (mFileNames g1) \<and>
    mDirNamesMap g \<subseteq>\<^sub>m mDirNamesMap g1 \<and> mFileNamesMap g \<subseteq>\<^sub>m mFileNamesMap g1"
proof -
  note e1 = appendFileName_effect [OF assms]
  from e1 have b: "rf fl1 = Some a" by simp
  then obtain fl2 g2 where r: "appendFileName a name fl1 g1 = Some (fl2, g2)"
    using appendFileName_returns [of fl1 a name g1] by auto
  note e2 = appendFileName_effect [OF r]
  from e1 have d: "mDirNamesMap g1 (dirKey name) = Some (last (rfDirs fl1))"
    by (auto split: option.splits)
  from e1 have n: "mFileNamesMap g1 (fileKey name) = Some (last (rfNames fl1))"
    by (auto split: option.splits)
  from e2 b d n have same: "last (rfDirs fl2) = last (rfDirs fl1) \<and> last (rfNames fl2) = last (rfNames fl1) \<and>
    mDirNames g2 = mDirNames g1 \<and> mFileNames g2 = mFileNames g1 \<and>
    mDirNamesMap g2 = mDirNamesMap g1 \<and> mFileNamesMap g2 = mFileNamesMap g1"
    by simp
  from e1 have grow: "length (mDirNames g1) \<le> length (mDirNames g) + 1 \<and>
    length (mFileNames g1) \<le> length (mFileNames g) + 1 \<and>
    prefix (mDirNames g) (mDirNames g1) \<and> prefix (mFileNames g) (mFileNames g1)"
    by (auto split: option.splits)
  from e1 have keep: "mDirNamesMap g \<subseteq>\<^sub>m mDirNamesMap g1 \<and> mFileNamesMap g \<subseteq>\<^sub>m mFileNamesMap g1"
    by (auto simp: map_le_def split: option.splits)
  from r same grow keep show ?thesis by blast
qed

theorem appendFileName_idempotent_witness:
  "appendFileName 0 ''src/a.txt'' FileNamesLoader_new Git_new \<noteq> None \<and>
   (\<exists>fl2 g2.
     appendFileName 0 ''src/a.txt''
       (fst (the (appendFileName 0 ''src/a.txt'' FileNamesLoader_new Git_new)))
       (snd (the (appendFileName 0 ''src/a.txt'' FileNamesLoader_new Git_new))) = Some (fl2, g2) \<and>
     rfDirs fl2 = [0, 0] \<and> rfNames fl2 = [0, 0] \<and>
     mDirNames g2 = [''src/''] \<and> mFileNames g2 = [''a.txt''])"
proof -
  define p where "p = the (appendFileName 0 ''src/a.txt'' FileNamesLoader_new Git_new)"
  have ev: "appendFileName 0 ''src/a.txt'' FileNamesLoader_new Git_new \<noteq> None \<and>
    rf (fst p) = Some 0 \<and> rfDirs (fst p) = [0] \<and> rfNames (fst p) = [0] \<and>
    mDirNames (snd p) = [''src/''] \<and> mFileNames (snd p) = [''a.txt'']"
    unfolding p_def by (simp add: eval_intern)
  then have h: "appendFileName 0 ''src/a.txt'' FileNamesLoader_new Git_new = Some (fst p, snd p)"
    unfolding p_def by auto
  from appendFileName_idempotent [OF h] obtain fl2 g2 where
    r: "appendFileName 0 ''src/a.txt'' (fst p) (snd p) = Some (fl2, g2)"
    and s: "last (rfDirs fl2) = last (rfDirs (fst p))" "last (rfNames fl2) = last (rfNames (fst p))"
      "mDirNames g2 = mDirNames (snd p)" "mFileNames g2 = mFileNames (snd p)"
    by blast
  from appendFileName_effect [OF r] ev s have "rfDirs fl2 = [0, 0] \<and> rfNames fl2 = [0, 0]"
    by (auto split: option.splits)
  with r s ev show ?thesis
    unfolding p_def by auto
qed


section \<open>Rename and copy lines, short lines\<close>

lemma splitKeep_no_sep: "sep \<notin> set xs \<Longrightarrow> splitKeep sep xs = [xs]"
  by (induction xs) auto

lemma splitKeep_nonempty [simp]: "splitKeep sep xs \<noteq> []"
  by (induction xs) auto

lemma splitKeep_first_field:
  "sep \<notin> set xs \<Longrightarrow> splitKeep sep (xs @ sep # ys) = xs # splitKeep sep ys"
  by (induction xs) auto

lemma split_three_fields:
  assumes "tab \<notin> set tok" "tab \<notin> set orig" "tab \<notin> set dest"
    and "tok \<noteq> []" "orig \<noteq> []" "dest \<noteq> []"
  shows "QString_split_skipEmpty (tok @ tab # orig @ tab # dest) tab = [tok, orig, dest]"
  using assms
  by (simp add: QString_split_skipEmpty_def splitKeep_first_field splitKeep_no_sep)

lemma setExtStatus_three_fields:
  assumes "QString_split_skipEmpty rowSt tab = [c # d # ds, orig, dest]"
  shows "setExtStatus a rowSt parNum fl g =
    (case appendFileName a dest fl g of
       None \<Rightarrow> None
     | Some (fl1, g1) \<Rightarrow>
         if d = CHR ''R''
         then (case appendFileName a orig fl1 (addExtEntry a parNum NEW (extInfo (d # ds) orig dest) g1) of
                 None \<Rightarrow> None
               | Some (fl2, g2) \<Rightarrow>
                   Some (fl2, updateObject a (setOnlyModified False)
                                (addExtEntry a parNum DELETED (extInfo (d # ds) orig dest) g2)))
         else Some (fl1, updateObject a (setOnlyModified False)
                      (addExtEntry a parNum NEW (extInfo (d # ds) orig dest) g1)))"
  using assms
  by (simp add: setExtStatus_def Let_def addExtEntry_def extInfo_def QString_remove_first_def
      QString_at_def split: option.splits prod.splits)

lemma parseDiffFormatLine_slow_path:
  assumes "length pre = 97" "pre ! 1 \<noteq> CHR '':''" "d \<noteq> tab"
  shows "parseDiffFormatLine dec a (pre @ c # d # rest) parNum fl g =
         setExtStatus a (c # d # rest) parNum fl g"
proof -
  have 1: "QString_at (pre @ c # d # rest) 1 = Some (pre ! 1)"
    using assms(1) by (simp add: QString_at_def nth_append)
  have 98: "QString_at (pre @ c # d # rest) 98 = Some d"
    using assms(1) by (simp add: QString_at_def nth_append)
  have m: "QString_mid (pre @ c # d # rest) 97 (- 1) = c # d # rest"
    using assms(1) by (simp add: QString_mid_def)
  show ?thesis
    using assms(2,3) by (simp add: parseDiffFormatLine_def 1 98 m)
qed

lemma rawPrefix_facts: "length rawPrefix = 97" "rawPrefix ! 1 \<noteq> CHR '':''"
  by (simp_all add: rawPrefix_def)

lemma isDigit_not_special: "isDigit d \<Longrightarrow> d \<noteq> tab \<and> d \<noteq> CHR ''R''"
  by (auto simp: isDigit_def)

lemma appendFileName_bound_objects:
  assumes "rf fl = Some a" "appendFileName a name fl g = Some (fl', g')"
  shows "objects g' = objects g"
  using assms intern_effect(8) [of "fileKey name" "dirKey name" fl g fl' g']
  by (simp add: appendFileName_bound)

lemma addExtEntry_object:
  "objects (updateObject a (setOnlyModified False) (addExtEntry a parNum f info g)) a =
     (objects g a)\<lparr>mergeParent := mergeParent (objects g a) @ [parNum],
        status := status (objects g a) @ [{f}],
        extStatus := QVector_resize (length (status (objects g a))) (extStatus (objects g a)) @ [info],
        mOnlyModified := False\<rparr>"
  by (simp add: addExtEntry_def updateObject_def setOnlyModified_def appendExtStatus_def
      setStatus_flag_def Let_def)

lemma QVector_resize_length [simp]: "length (QVector_resize n v) = n"
  by (simp add: QVector_resize_def min_def)

lemma nth_after_resize [simp]: "(QVector_resize n v @ [z]) ! n = z"
  using QVector_resize_length [of n v] by (metis nth_append_length)

lemma slow_path_line_one_entry:
  assumes "length pre = 97" and "pre ! 1 \<noteq> CHR '':''" and "isDigit d" and "tab \<notin> set ds"
    and "orig \<noteq> []" and "dest \<noteq> []" and "tab \<notin> set orig" and "tab \<notin> set dest" and "c \<noteq> tab"
  shows "parseDiffFormatLine dec a (pre @ c # d # ds @ tab # orig @ tab # dest) parNum fl g =
      (case appendFileName a dest fl g of
         None \<Rightarrow> None
       | Some (fl1, g1) \<Rightarrow>
           Some (fl1, updateObject a (setOnlyModified False)
                        (addExtEntry a parNum NEW (extInfo (d # ds) orig dest) g1))) \<and>
    (rf fl = Some a \<longrightarrow>
      (\<exists>fl' g'.
         parseDiffFormatLine dec a (pre @ c # d # ds @ tab # orig @ tab # dest) parNum fl g
           = Some (fl', g') \<and>
         length (rfDirs fl') = length (rfDirs fl) + 1 \<and>
         length (rfNames fl') = length (rfNames fl) + 1 \<and>
         mDirNamesMap g' (dirKey dest) = Some (last (rfDirs fl')) \<and>
         mFileNamesMap g' (fileKey dest) = Some (last (rfNames fl')) \<and>
         mergeParent (objects g' a) = mergeParent (objects g a) @ [parNum] \<and>
         status (objects g' a) = status (objects g a) @ [{NEW}] \<and>
         extendedStatus (objects g' a) (int (length (status (objects g a)))) = extInfo (d # ds) orig dest \<and>
         mOnlyModified (objects g' a) = False))"
proof -
  let ?row = "c # d # ds @ tab # orig @ tab # dest"
  let ?res = "\<lambda>g1. updateObject a (setOnlyModified False)
      (addExtEntry a parNum NEW (extInfo (d # ds) orig dest) g1)"
  from assms(3) have d: "d \<noteq> tab" "d \<noteq> CHR ''R''"
    by (simp_all add: isDigit_not_special)
  from d(1) assms(4-9)
  have "QString_split_skipEmpty ((c # d # ds) @ tab # orig @ tab # dest) tab
      = [c # d # ds, orig, dest]"
    by (intro split_three_fields) auto
  then have sp: "QString_split_skipEmpty ?row tab = [c # d # ds, orig, dest]"
    by simp
  have eq: "parseDiffFormatLine dec a (pre @ ?row) parNum fl g =
      (case appendFileName a dest fl g of
         None \<Rightarrow> None
       | Some (fl1, g1) \<Rightarrow> Some (fl1, ?res g1))"
    using parseDiffFormatLine_slow_path [OF assms(1,2) d(1), of dec a c
        "ds @ tab # orig @ tab # dest" parNum fl g]
      setExtStatus_three_fields [OF sp, of a parNum fl g] d(2)
    by (simp split: option.splits)
  have bound: "\<exists>fl' g'.
         parseDiffFormatLine dec a (pre @ ?row) parNum fl g = Some (fl', g') \<and>
         length (rfDirs fl') = length (rfDirs fl) + 1 \<and>
         length (rfNames fl') = length (rfNames fl) + 1 \<and>
         mDirNamesMap g' (dirKey dest) = Some (last (rfDirs fl')) \<and>
         mFileNamesMap g' (fileKey dest) = Some (last (rfNames fl')) \<and>
         mergeParent (objects g' a) = mergeParent (objects g a) @ [parNum] \<and>
         status (objects g' a) = status (objects g a) @ [{NEW}] \<and>
         extendedStatus (objects g' a) (int (length (status (objects g a)))) = extInfo (d # ds) orig dest \<and>
         mOnlyModified (objects g' a) = False" if b: "rf fl = Some a"
  proof -
    from b obtain fl1 g1 where r: "appendFileName a dest fl g = Some (fl1, g1)"
      using appendFileName_returns [of fl a dest g] by auto
    note e = appendFileName_effect [OF r]
    have o: "objects g1 = objects g"
      using appendFileName_bound_objects [OF b r] .
    have tables: "mDirNamesMap (?res g1) = mDirNamesMap g1" "mFileNamesMap (?res g1) = mFileNamesMap g1"
      by (simp_all add: addExtEntry_def updateObject_def)
    from e b have 1: "length (rfDirs fl1) = length (rfDirs fl) + 1"
      "length (rfNames fl1) = length (rfNames fl) + 1"
      "mDirNamesMap g1 (dirKey dest) = Some (last (rfDirs fl1))"
      "mFileNamesMap g1 (fileKey dest) = Some (last (rfNames fl1))"
      by (auto split: option.splits)
    have 2: "extendedStatus (objects (?res g1) a) (int (length (status (objects g a))))
        = extInfo (d # ds) orig dest"
      by (simp add: addExtEntry_object o extendedStatus_def)
    from eq r have "parseDiffFormatLine dec a (pre @ ?row) parNum fl g = Some (fl1, ?res g1)"
      by simp
    with 1 2 tables show ?thesis
      by (simp add: addExtEntry_object o)
  qed
  from eq bound show ?thesis by blast
qed


text \<open>
  C5. A change line on the slow path whose status token is \<open>C\<close> followed by a
  similarity (a digit first), then the origin and the destination path, makes one call
  of the interner, for the destination, and appends one entry: status New, the parent
  counter, the extended-status text; nothing is appended for the origin path. With the
  loader bound to the target the parse returns.
\<close>

theorem copy_line_appends_only_destination:
  assumes "length pre = 97" and "pre ! 1 \<noteq> CHR '':''" and "isDigit d" and "tab \<notin> set ds"
    and "orig \<noteq> []" and "dest \<noteq> []" and "tab \<notin> set orig" and "tab \<notin> set dest"
  shows "parseDiffFormatLine dec a (pre @ CHR ''C'' # d # ds @ tab # orig @ tab # dest) parNum fl g =
      (case appendFileName a dest fl g of
         None \<Rightarrow> None
       | Some (fl1, g1) \<Rightarrow>
           Some (fl1, updateObject a (setOnlyModified False)
                        (addExtEntry a parNum NEW (extInfo (d # ds) orig dest) g1))) \<and>
    (rf fl = Some a \<longrightarrow>
      (\<exists>fl' g'.
         parseDiffFormatLine dec a (pre @ CHR ''C'' # d # ds @ tab # orig @ tab # dest) parNum fl g
           = Some (fl', g') \<and>
         length (rfDirs fl') = length (rfDirs fl) + 1 \<and>
         length (rfNames fl') = length (rfNames fl) + 1 \<and>
         mDirNamesMap g' (dirKey dest) = Some (last (rfDirs fl')) \<and>
         mFileNamesMap g' (fileKey dest) = Some (last (rfNames fl')) \<and>
         mergeParent (objects g' a) = mergeParent (objects g a) @ [parNum] \<and>
         status (objects g' a) = status (objects g a) @ [{NEW}] \<and>
         extendedStatus (objects g' a) (int (length (status (objects g a)))) = extInfo (d # ds) orig dest \<and>
         mOnlyModified (objects g' a) = False))"
  by (rule slow_path_line_one_entry [OF assms]) simp

declare natDigits.simps [simp del]

lemma extInfo_80: "extInfo ''80'' ''a.txt'' ''b.txt'' = ''a.txt --> b.txt (80%)''"
  by code_simp

lemma extInfo_90: "extInfo ''90'' ''src/old.txt'' ''src/new.txt'' = ''src/old.txt --> src/new.txt (90%)''"
  by code_simp

theorem copy_line_witness:
  "length rawPrefix = 97 \<and> rawPrefix ! 1 \<noteq> CHR '':'' \<and> isDigit CHR ''8'' \<and> rf boundLoader = Some 0 \<and>
   (\<exists>fl' g'. parseDiffFormatLine gitStatusLetters 0 copyLine 1 boundLoader Git_new = Some (fl', g') \<and>
      rfDirs fl' = [0] \<and> rfNames fl' = [0] \<and>
      mDirNamesMap g' [] = Some 0 \<and> mFileNamesMap g' ''b.txt'' = Some 0 \<and>
      mergeParent (objects g' 0) = [1] \<and> status (objects g' 0) = [{NEW}] \<and>
      extendedStatus (objects g' 0) 0 = ''a.txt --> b.txt (80%)'' \<and>
      mOnlyModified (objects g' 0) = False)"
proof -
  have d: "isDigit CHR ''8''"
    by (simp add: isDigit_def)
  have b: "rf boundLoader = Some 0"
    by (simp add: boundLoader_def)
  have l: "copyLine = rawPrefix @ CHR ''C'' # CHR ''8'' # ''0'' @ tab # ''a.txt'' @ tab # ''b.txt''"
    by (simp add: copyLine_def)
  have k: "dirKey ''b.txt'' = []" "fileKey ''b.txt'' = ''b.txt''"
    by (simp_all add: dirKey_def fileKey_def QString_lastIndexOf_def QString_left_def QString_mid_def)
  have s: "status (objects Git_new 0) = []" "mergeParent (objects Git_new 0) = []"
    "rfDirs boundLoader = []" "rfNames boundLoader = []"
    by (simp_all add: Git_new_def RevisionFile_new_def boundLoader_def)
  have side: "tab \<notin> set ''0''" "''a.txt'' \<noteq> []" "''b.txt'' \<noteq> []"
    "tab \<notin> set ''a.txt''" "tab \<notin> set ''b.txt''"
    by simp_all
  note T = copy_line_appends_only_destination [OF rawPrefix_facts d side,
      of gitStatusLetters 0 1 boundLoader Git_new, folded l]
  from T b
  obtain fl' g' where r: "parseDiffFormatLine gitStatusLetters 0 copyLine 1 boundLoader Git_new = Some (fl', g')"
    and e: "length (rfDirs fl') = length (rfDirs boundLoader) + 1"
      "length (rfNames fl') = length (rfNames boundLoader) + 1"
      "mDirNamesMap g' (dirKey ''b.txt'') = Some (last (rfDirs fl'))"
      "mFileNamesMap g' (fileKey ''b.txt'') = Some (last (rfNames fl'))"
      "mergeParent (objects g' 0) = mergeParent (objects Git_new 0) @ [1]"
      "status (objects g' 0) = status (objects Git_new 0) @ [{NEW}]"
      "extendedStatus (objects g' 0) (int (length (status (objects Git_new 0)))) = extInfo ''80'' ''a.txt'' ''b.txt''"
      "mOnlyModified (objects g' 0) = False"
    by blast
  from T [THEN conjunct1] r have r': "appendFileName 0 ''b.txt'' boundLoader Git_new \<noteq> None"
    "fl' = fst (the (appendFileName 0 ''b.txt'' boundLoader Git_new))"
    by (auto split: option.splits)
  have "rfDirs (fst (the (appendFileName 0 ''b.txt'' boundLoader Git_new))) = [0]"
    "rfNames (fst (the (appendFileName 0 ''b.txt'' boundLoader Git_new))) = [0]"
    by (simp_all add: eval_intern boundLoader_def)
  with r' have i: "rfDirs fl' = [0]" "rfNames fl' = [0]"
    by simp_all
  from r e i k s d b rawPrefix_facts extInfo_80 show ?thesis
    by auto
qed

text \<open>
  C4. The line of the claim, a rename with similarity 90 from \<open>src/old.txt\<close> to
  \<open>src/new.txt\<close>, parsed into a fresh \<open>RevisionFile\<close>: the code appends one entry, New
  at \<open>src/new.txt\<close>, and no Deleted entry for \<open>src/old.txt\<close>, because the letter
  \<open>R\<close> was removed from the token before \<open>type.at(0)\<close> is compared with it.
\<close>

theorem rename_line_appends_no_deleted_entry:
  "\<exists>fl' g'. parseDiffFormatLine gitStatusLetters 0 renameLine 1 FileNamesLoader_new Git_new = Some (fl', g') \<and>
     rfDirs fl' = [0] \<and> rfNames fl' = [0] \<and>
     mDirNames g' = [''src/''] \<and> mFileNames g' = [''new.txt''] \<and>
     mergeParent (objects g' 0) = [1] \<and> status (objects g' 0) = [{NEW}] \<and>
     extStatus (objects g' 0) = [''src/old.txt --> src/new.txt (90%)''] \<and>
     mOnlyModified (objects g' 0) = False"
proof -
  have l: "renameLine = rawPrefix @ CHR ''R'' # CHR ''9'' # ''0'' @ tab # ''src/old.txt'' @ tab # ''src/new.txt''"
    by (simp add: renameLine_def)
  have d: "isDigit CHR ''9''"
    by (simp add: isDigit_def)
  have side: "tab \<notin> set ''0''" "''src/old.txt'' \<noteq> []" "''src/new.txt'' \<noteq> []"
    "tab \<notin> set ''src/old.txt''" "tab \<notin> set ''src/new.txt''" "CHR ''R'' \<noteq> tab"
    by simp_all
  note T = slow_path_line_one_entry [OF rawPrefix_facts d side,
      of gitStatusLetters 0 1 FileNamesLoader_new Git_new, folded l, THEN conjunct1]
  show ?thesis
    unfolding T
    by (simp add: eval_intern addExtEntry_def extInfo_90 setOnlyModified_def appendExtStatus_def
        setStatus_flag_def RevisionFile_new_def QVector_resize_def)
qed

lemma parseDiffFormatLine_short_line:
  assumes "length line < 99" and "QString_at line 1 \<noteq> Some CHR '':''"
  shows "parseDiffFormatLine dec a line parNum fl g = None"
proof (cases "QString_at line 1")
  case None
  then show ?thesis by (simp add: parseDiffFormatLine_def)
next
  case (Some c1)
  from assms(1) have "QString_at line 98 = None"
    by (simp add: QString_at_def)
  with Some assms(2) show ?thesis
    by (simp add: parseDiffFormatLine_def)
qed

text \<open>
  C2. A change line of two characters: the code reads position 98 of it, which is out
  of range, and does not reach the slow path.
\<close>

theorem short_change_line_read_out_of_range:
  "length '':x'' = 2 \<and> QString_at '':x'' 98 = None \<and>
   parseDiffFormatLine gitStatusLetters 0 '':x'' 1 FileNamesLoader_new Git_new = None \<and>
   parseDiffFormat gitStatusLetters 0 ('':x'' @ [newline]) FileNamesLoader_new Git_new = None"
proof -
  have 1: "parseDiffFormatLine gitStatusLetters 0 '':x'' 1 FileNamesLoader_new Git_new = None"
    by (rule parseDiffFormatLine_short_line) (simp_all add: QString_at_def)
  have "parseDiffFormat_step gitStatusLetters 0 '':x'' 1 FileNamesLoader_new Git_new = None"
    by (simp add: parseDiffFormat_step_def 1 QString_at_def)
  then have "parseDiffFormat gitStatusLetters 0 ('':x'' @ [newline]) FileNamesLoader_new Git_new = None"
    by (simp add: parseDiffFormat_def QString_indexOf_def QString_mid_def)
  with 1 show ?thesis
    by (simp add: QString_at_def)
qed


section \<open>Line iteration and the parent counter\<close>

lemma indexOf_aux_absent: "c \<notin> set s \<Longrightarrow> indexOf_aux c s i = - 1"
  by (induction s arbitrary: i) auto

lemma indexOf_aux_first: "c \<notin> set xs \<Longrightarrow> indexOf_aux c (xs @ c # ys) i = i + int (length xs)"
  by (induction xs arbitrary: i) auto

lemma QString_indexOf_absent:
  assumes "0 \<le> from" and "c \<notin> set (drop (nat from) s)"
  shows "QString_indexOf s c from = - 1"
  using assms by (simp add: QString_indexOf_def indexOf_aux_absent)

lemma QString_indexOf_first:
  assumes "s = pre @ xs @ c # ys" and "c \<notin> set xs" and "from = int (length pre)"
  shows "QString_indexOf s c from = int (length pre) + int (length xs)"
  using assms by (simp add: QString_indexOf_def indexOf_aux_first)

lemma QString_mid_middle:
  assumes "s = pre @ l @ rest" and "pos = int (length pre)" and "n = int (length l)"
  shows "QString_mid s pos n = l"
  using assms by (simp add: QString_mid_def)

declare parseDiffFormat_loop.simps [simp del]

lemma loop_stops [simp]: "parseDiffFormat_loop dec a buf parNum startPos (- 1) fl g = Some (parNum, fl, g)"
  by (simp add: parseDiffFormat_loop.simps)

lemma loop_follows_records:
  assumes "newline \<notin> set l"
    and "\<forall>x \<in> set ls. newline \<notin> set x \<and> 98 \<le> length x"
    and "newline \<notin> set rest"
  shows "parseDiffFormat_loop dec a (pre @ l @ newline # concat (map (\<lambda>x. x @ [newline]) ls) @ rest)
           parNum (int (length pre)) (int (length pre) + int (length l)) fl g
         = parseRecords dec a (l # ls) parNum fl g"
  using assms
proof (induction ls arbitrary: pre l parNum fl g)
  case Nil
  let ?buf = "pre @ l @ newline # rest"
  have line: "QString_mid ?buf (int (length pre)) (int (length pre) + int (length l) - int (length pre)) = l"
    by (rule QString_mid_middle [where pre = pre and rest = "newline # rest"]) simp_all
  have "drop (nat (int (length pre) + int (length l) + 99)) ?buf = drop 98 rest"
    by (simp add: nat_add_distrib)
  with Nil.prems(3) have "newline \<notin> set (drop (nat (int (length pre) + int (length l) + 99)) ?buf)"
    by (auto dest: in_set_dropD)
  then have stop: "QString_indexOf ?buf newline (int (length pre) + int (length l) + 99) = - 1"
    by (intro QString_indexOf_absent) simp_all
  have ne: "int (length pre) + int (length l) \<noteq> - 1"
    by simp
  show ?case
    using line stop ne
    by (subst parseDiffFormat_loop.simps) (simp split: option.splits)
next
  case (Cons x xs)
  let ?tail = "concat (map (\<lambda>x. x @ [newline]) xs) @ rest"
  let ?buf = "pre @ l @ newline # concat (map (\<lambda>x. x @ [newline]) (x # xs)) @ rest"
  let ?pre' = "pre @ l @ [newline]"
  from Cons.prems(2) have x: "newline \<notin> set x" "98 \<le> length x"
    and xs: "\<forall>y \<in> set xs. newline \<notin> set y \<and> 98 \<le> length y"
    by simp_all
  have buf: "?buf = ?pre' @ x @ newline # ?tail"
    by simp
  have line: "QString_mid ?buf (int (length pre)) (int (length pre) + int (length l) - int (length pre)) = l"
    by (rule QString_mid_middle [where pre = pre and rest = "newline # concat (map (\<lambda>x. x @ [newline]) (x # xs)) @ rest"]) simp_all
  have ne: "int (length pre) + int (length l) \<noteq> - 1"
    by simp
  have "?buf = (?pre' @ take 98 x) @ drop 98 x @ newline # ?tail"
    by simp
  moreover have "newline \<notin> set (drop 98 x)"
    using x(1) by (auto dest: in_set_dropD)
  moreover have "int (length pre) + int (length l) + 99 = int (length (?pre' @ take 98 x))"
    using x(2) by simp
  ultimately have "QString_indexOf ?buf newline (int (length pre) + int (length l) + 99)
      = int (length (?pre' @ take 98 x)) + int (length (drop 98 x))"
    by (rule QString_indexOf_first)
  also have "\<dots> = int (length ?pre') + int (length x)"
    using x(2) by simp
  finally have next_end: "QString_indexOf ?buf newline (int (length pre) + int (length l) + 99)
      = int (length ?pre') + int (length x)" .
  have start: "int (length pre) + int (length l) + 1 = int (length ?pre')"
    by simp
  have IH: "parseDiffFormat_loop dec a ?buf p (int (length ?pre')) (int (length ?pre') + int (length x)) f h
      = parseRecords dec a (x # xs) p f h" for p f h
    using Cons.IH [OF x(1) xs Cons.prems(3), of ?pre' p f h] by simp
  show ?case
  proof (cases "parseDiffFormat_step dec a l parNum fl g")
    case None
    show ?thesis
      by (subst parseDiffFormat_loop.simps)
        (simp only: ne line None if_True not_False_eq_True option.case parseRecords.simps)
  next
    case (Some r)
    obtain p f h where r: "parseDiffFormat_step dec a l parNum fl g = Some (p, f, h)"
      using Some by (cases r) auto
    show ?thesis
      by (subst parseDiffFormat_loop.simps)
        (simp only: ne line r if_True not_False_eq_True option.case prod.case parseRecords.simps
          next_end start IH)
  qed
qed

lemma splitKeep_fields_no_sep: "x \<in> set (splitKeep sep s) \<Longrightarrow> sep \<notin> set x"
proof (induction s arbitrary: x)
  case Nil
  then show ?case by simp
next
  case (Cons c cs)
  obtain f fs where r: "splitKeep sep cs = f # fs"
    by (cases "splitKeep sep cs") simp_all
  with Cons show ?case
    by (auto split: if_splits)
qed

lemma splitKeep_join:
  "concat (map (\<lambda>x. x @ [sep]) (butlast (splitKeep sep s))) @ last (splitKeep sep s) = s"
proof (induction s)
  case Nil
  show ?case by simp
next
  case (Cons c cs)
  obtain f fs where r: "splitKeep sep cs = f # fs"
    by (cases "splitKeep sep cs") simp_all
  with Cons show ?case
    by (cases fs) (auto split: if_splits)
qed

lemma appendFileName_keeps_entries:
  assumes "appendFileName t name fl g = Some (fl', g')"
  shows "mergeParent (objects g' b) = mergeParent (objects g b)"
    and "status (objects g' b) = status (objects g b)"
  using assms
  by (auto simp: appendFileName_def flushFileNames_def internDir_def internName_def
      updateObject_def Let_def split: option.splits if_splits)

lemma setExtStatus_mergeParent:
  assumes "setExtStatus a rowSt parNum fl g = Some (fl', g')"
  shows "\<exists>k. mergeParent (objects g' a) = mergeParent (objects g a) @ replicate k parNum"
proof (cases "length (QString_split_skipEmpty rowSt tab) = 3")
  case False
  with assms have "g' = g"
    by (simp add: setExtStatus_def Let_def)
  then have "mergeParent (objects g' a) = mergeParent (objects g a) @ replicate 0 parNum"
    by simp
  then show ?thesis ..
next
  case True
  then obtain tok orig dest where sp: "QString_split_skipEmpty rowSt tab = [tok, orig, dest]"
    by (auto simp: length_Suc_conv numeral_3_eq_3)
  from assms sp obtain fl1 g1 where 1: "appendFileName a dest fl g = Some (fl1, g1)"
    by (auto simp: setExtStatus_def Let_def Option.bind_eq_Some_conv)
  show ?thesis
  proof (cases "QString_at (QString_remove_first tok) 0 = Some CHR ''R''")
    case False
    with assms sp 1 have "mergeParent (objects g' a) = mergeParent (objects g1 a) @ [parNum]"
      by (auto simp: setExtStatus_def Let_def Option.bind_eq_Some_conv updateObject_def
          setStatus_flag_def appendExtStatus_def setOnlyModified_def split: if_splits)
    with appendFileName_keeps_entries(1) [OF 1, of a]
    have "mergeParent (objects g' a) = mergeParent (objects g a) @ replicate 1 parNum"
      by simp
    then show ?thesis ..
  next
    case True
    with assms sp 1 obtain fl2 g2 where
      2: "appendFileName a orig fl1
            (updateObject a (appendExtStatus (orig @ '' --> '' @ dest @ '' (''
                 @ QString_number (QString_toInt (QString_remove_first tok)) @ ''%)''))
              (updateObject a (setStatus_flag NEW)
                (updateObject a (\<lambda>r. r\<lparr>mergeParent := mergeParent r @ [parNum]\<rparr>) g1))) = Some (fl2, g2)"
      and 3: "mergeParent (objects g' a) = mergeParent (objects g2 a) @ [parNum]"
      by (auto simp: setExtStatus_def Let_def Option.bind_eq_Some_conv updateObject_def
          setStatus_flag_def appendExtStatus_def setOnlyModified_def split: if_splits)
    from appendFileName_keeps_entries(1) [OF 2, of a] appendFileName_keeps_entries(1) [OF 1, of a] 3
    have "mergeParent (objects g' a) = mergeParent (objects g a) @ replicate 2 parNum"
      by (simp add: updateObject_def setStatus_flag_def appendExtStatus_def numeral_2_eq_2)
    then show ?thesis ..
  qed
qed

lemma parseDiffFormatLine_mergeParent:
  assumes "parseDiffFormatLine dec a line parNum fl g = Some (fl', g')"
  shows "\<exists>k. mergeParent (objects g' a) = mergeParent (objects g a) @ replicate k parNum"
proof -
  from assms obtain c1 where c1: "QString_at line 1 = Some c1"
    by (auto simp: parseDiffFormatLine_def Option.bind_eq_Some_conv)
  show ?thesis
  proof (cases "c1 = CHR '':''")
    case True
    with assms c1 obtain fl1 g1 where 1: "appendFileName a (QString_section_last line tab) fl g = Some (fl1, g1)"
      and 2: "mergeParent (objects g' a) = mergeParent (objects g1 a) @ [parNum]"
      by (auto simp: parseDiffFormatLine_def Option.bind_eq_Some_conv updateObject_def setStatus_code_def)
    from appendFileName_keeps_entries(1) [OF 1, of a] 2
    have "mergeParent (objects g' a) = mergeParent (objects g a) @ replicate 1 parNum"
      by simp
    then show ?thesis ..
  next
    case False
    with assms c1 obtain c98 where c98: "QString_at line 98 = Some c98"
      by (auto simp: parseDiffFormatLine_def Option.bind_eq_Some_conv)
    show ?thesis
    proof (cases "c98 = tab")
      case True
      with assms c1 c98 False obtain fl1 g1 where 1: "appendFileName a (QString_mid line 99 (- 1)) fl g = Some (fl1, g1)"
        and 2: "mergeParent (objects g' a) = mergeParent (objects g1 a) @ [parNum]"
        by (auto simp: parseDiffFormatLine_def Option.bind_eq_Some_conv updateObject_def setStatus_code_def)
      from appendFileName_keeps_entries(1) [OF 1, of a] 2
      have "mergeParent (objects g' a) = mergeParent (objects g a) @ replicate 1 parNum"
        by simp
      then show ?thesis ..
    next
      case c: False
      with assms c1 c98 False have "setExtStatus a (QString_mid line 97 (- 1)) parNum fl g = Some (fl', g')"
        by (simp add: parseDiffFormatLine_def)
      then show ?thesis
        by (rule setExtStatus_mergeParent)
    qed
  qed
qed

lemma parseDiffFormat_step_effect:
  assumes "parseDiffFormat_step dec a line parNum fl g = Some (parNum', fl', g')"
  shows "parNum' = (if QString_at line 0 = Some CHR '':'' then parNum else parNum + 1) \<and>
    (\<exists>k. mergeParent (objects g' a) = mergeParent (objects g a) @ replicate k parNum)"
proof (cases "QString_at line 0 = Some CHR '':''")
  case True
  with assms have "parseDiffFormatLine dec a line parNum fl g = Some (fl', g')" and "parNum' = parNum"
    by (auto simp: parseDiffFormat_step_def)
  with parseDiffFormatLine_mergeParent [of dec a line parNum fl g fl' g'] True show ?thesis
    by simp
next
  case False
  with assms have "g' = g" and "parNum' = parNum + 1"
    by (auto simp: parseDiffFormat_step_def Option.bind_eq_Some_conv split: if_splits)
  moreover have "\<exists>k. mergeParent (objects g a) = mergeParent (objects g a) @ replicate k parNum"
    by (rule exI [of _ 0]) simp
  ultimately show ?thesis using False by simp
qed

lemma parseDiffFormatLine_fast_path:
  assumes "length pre = 97" and "pre ! 1 \<noteq> CHR '':''"
  shows "parseDiffFormatLine dec a (pre @ c # tab # path) parNum fl g =
    (case appendFileName a path fl g of
       None \<Rightarrow> None
     | Some (fl1, g1) \<Rightarrow>
         Some (fl1, updateObject a (\<lambda>r. r\<lparr>mergeParent := mergeParent r @ [parNum]\<rparr>)
                      (updateObject a (setStatus_code dec [c]) g1)))"
proof -
  have 1: "QString_at (pre @ c # tab # path) 1 = Some (pre ! 1)"
    using assms(1) by (simp add: QString_at_def nth_append)
  have 97: "QString_at (pre @ c # tab # path) 97 = Some c"
    using assms(1) by (simp add: QString_at_def nth_append)
  have 98: "QString_at (pre @ c # tab # path) 98 = Some tab"
    using assms(1) by (simp add: QString_at_def nth_append)
  have m: "QString_mid (pre @ c # tab # path) 99 (- 1) = path"
    using assms(1) by (simp add: QString_mid_def)
  show ?thesis
    using assms(2) by (simp add: parseDiffFormatLine_def 1 97 98 m split: option.splits)
qed

lemma fastLine_facts:
  "length fastLine = 100" "newline \<notin> set fastLine" "QString_at fastLine 0 = Some CHR '':''"
  by (simp_all add: fastLine_def rawPrefix_def QString_at_def)

lemma fastLine_parse:
  "parseDiffFormatLine gitStatusLetters a fastLine parNum fl g =
    (case appendFileName a ''f'' fl g of
       None \<Rightarrow> None
     | Some (fl1, g1) \<Rightarrow>
         Some (fl1, updateObject a (\<lambda>r. r\<lparr>mergeParent := mergeParent r @ [parNum]\<rparr>)
                      (updateObject a (setStatus_code gitStatusLetters ''M'') g1)))"
  using parseDiffFormatLine_fast_path [OF rawPrefix_facts, of gitStatusLetters a "CHR ''M''" "''f''" parNum fl g]
  by (simp add: fastLine_def)

lemma fastLine_step:
  "parseDiffFormat_step gitStatusLetters 0 fastLine parNum FileNamesLoader_new Git_new =
     Some (parNum, \<lparr>rf = Some 0, rfDirs = [0], rfNames = [0]\<rparr>,
           Git_new\<lparr>mDirNamesMap := [[] \<mapsto> 0], mDirNames := [[]],
             mFileNamesMap := [''f'' \<mapsto> 0], mFileNames := [''f''],
             objects := (objects Git_new)(0 := RevisionFile_new\<lparr>status := [{MODIFIED}], mergeParent := [parNum]\<rparr>)\<rparr>)"
  by (simp add: parseDiffFormat_step_def fastLine_facts fastLine_parse eval_intern
      setStatus_code_def gitStatusLetters_def RevisionFile_new_def)

lemma loop_is_parseRecords:
  assumes "\<forall>l \<in> set (tl (records buf)). 98 \<le> length l"
  shows "parseDiffFormat_loop dec a buf 1 0 (QString_indexOf buf newline 0) fl g
         = parseRecords dec a (records buf) 1 fl g"
proof (cases "records buf")
  case Nil
  then have "length (splitKeep newline buf) = 1"
    by (cases "splitKeep newline buf" rule: rev_cases) (simp_all add: records_def)
  then obtain t where t: "splitKeep newline buf = [t]"
    by (cases "splitKeep newline buf") simp_all
  with splitKeep_join [of newline buf] splitKeep_fields_no_sep [of t newline buf]
  have "newline \<notin> set buf"
    by simp
  then have "QString_indexOf buf newline 0 = - 1"
    by (intro QString_indexOf_absent) simp_all
  with Nil show ?thesis by simp
next
  case (Cons l ls)
  define rest where "rest = last (splitKeep newline buf)"
  have fields: "newline \<notin> set x" if "x \<in> set (l # ls)" for x
  proof -
    from that Cons have "x \<in> set (butlast (splitKeep newline buf))"
      by (simp add: records_def)
    then have "x \<in> set (splitKeep newline buf)"
      by (rule in_set_butlastD)
    then show ?thesis
      by (rule splitKeep_fields_no_sep)
  qed
  have rest: "newline \<notin> set rest"
    unfolding rest_def by (rule splitKeep_fields_no_sep [of _ newline buf]) simp
  from splitKeep_join [of newline buf] Cons
  have buf: "buf = [] @ l @ newline # concat (map (\<lambda>x. x @ [newline]) ls) @ rest"
    by (simp add: records_def rest_def)
  from assms Cons fields have long: "\<forall>x \<in> set ls. newline \<notin> set x \<and> 98 \<le> length x"
    by simp
  have "QString_indexOf buf newline 0 = int (length ([]::string)) + int (length l)"
    by (rule QString_indexOf_first [where ys = "concat (map (\<lambda>x. x @ [newline]) ls) @ rest"])
      (use buf fields in simp_all)
  then have first: "QString_indexOf buf newline 0 = int (length ([]::string)) + int (length l)"
    by simp
  have "parseDiffFormat_loop dec a ([] @ l @ newline # concat (map (\<lambda>x. x @ [newline]) ls) @ rest)
           1 (int (length ([]::string))) (int (length ([]::string)) + int (length l)) fl g
         = parseRecords dec a (l # ls) 1 fl g"
    by (rule loop_follows_records) (use fields long rest in simp_all)
  with first buf Cons show ?thesis
    by simp
qed

text \<open>
  The loop of \<open>Git::parseDiffFormat\<close> takes the first line up to the first newline
  and every later line up to the first newline at least 99 positions after the
  previous end. When every newline-terminated record but the first has at least 98
  characters, the loop runs its body on each record once, in order, with the parent
  counter starting at 1. The body adds one to the counter for a line that does not
  begin with a colon, and every \<open>mergeParent\<close> value a change line appends is the
  counter the line was parsed with.
\<close>

theorem parseDiffFormat_examines_long_records:
  assumes "\<forall>l \<in> set (tl (records buf)). 98 \<le> length l"
  shows "parseDiffFormat_loop dec a buf 1 0 (QString_indexOf buf newline 0) fl g
           = parseRecords dec a (records buf) 1 fl g \<and>
         parseDiffFormat dec a buf fl g = map_option snd (parseRecords dec a (records buf) 1 fl g) \<and>
         (parseDiffFormat_step dec a line parNum fl0 g0 = Some (parNum', fl', g') \<longrightarrow>
            parNum' = (if QString_at line 0 = Some CHR '':'' then parNum else parNum + 1) \<and>
            (\<exists>k. mergeParent (objects g' a) = mergeParent (objects g0 a) @ replicate k parNum))"
  using loop_is_parseRecords [OF assms, of dec a fl g]
    parseDiffFormat_step_effect [of dec a line parNum fl0 g0 parNum' fl' g']
  by (simp add: parseDiffFormat_def)

lemma longLinesBuffer_records: "records longLinesBuffer = [''abc'', fastLine]"
proof -
  have "splitKeep newline (''abc'' @ newline # (fastLine @ newline # []))
      = ''abc'' # splitKeep newline (fastLine @ newline # [])"
    by (rule splitKeep_first_field) simp
  also have "splitKeep newline (fastLine @ newline # []) = fastLine # splitKeep newline []"
    by (rule splitKeep_first_field) (rule fastLine_facts(2))
  finally show ?thesis
    by (simp add: records_def longLinesBuffer_def)
qed

theorem parseDiffFormat_examines_long_records_witness:
  "records longLinesBuffer = [''abc'', fastLine] \<and> 98 \<le> length fastLine \<and>
   parseDiffFormat_loop gitStatusLetters 0 longLinesBuffer 1 0
       (QString_indexOf longLinesBuffer newline 0) FileNamesLoader_new Git_new \<noteq> None \<and>
   fst (the (parseDiffFormat_loop gitStatusLetters 0 longLinesBuffer 1 0
       (QString_indexOf longLinesBuffer newline 0) FileNamesLoader_new Git_new)) = 2 \<and>
   mergeParent (objects (snd (the (parseDiffFormat gitStatusLetters 0 longLinesBuffer
       FileNamesLoader_new Git_new))) 0) = [2]"
proof -
  have h: "\<forall>l \<in> set (tl (records longLinesBuffer)). 98 \<le> length l"
    by (simp add: longLinesBuffer_records fastLine_facts)
  have s1: "parseDiffFormat_step gitStatusLetters 0 ''abc'' 1 FileNamesLoader_new Git_new
      = Some (2, FileNamesLoader_new, Git_new)"
    by (simp add: parseDiffFormat_step_def QString_at_def)
  have r: "parseRecords gitStatusLetters 0 (records longLinesBuffer) 1 FileNamesLoader_new Git_new
      = Some (2, \<lparr>rf = Some 0, rfDirs = [0], rfNames = [0]\<rparr>,
           Git_new\<lparr>mDirNamesMap := [[] \<mapsto> 0], mDirNames := [[]],
             mFileNamesMap := [''f'' \<mapsto> 0], mFileNames := [''f''],
             objects := (objects Git_new)(0 := RevisionFile_new\<lparr>status := [{MODIFIED}], mergeParent := [2]\<rparr>)\<rparr>)"
    by (simp add: longLinesBuffer_records s1 fastLine_step)
  from parseDiffFormat_examines_long_records [OF h, of gitStatusLetters 0 FileNamesLoader_new Git_new] r
  show ?thesis
    by (simp add: longLinesBuffer_records fastLine_facts)
qed

lemma shaLine_facts:
  "length shaLine = 40" "newline \<notin> set shaLine"
  by (simp_all add: shaLine_def)

lemma shaLine_step:
  "parseDiffFormat_step dec a (shaLine @ rest) parNum fl g = Some (parNum + 1, fl, g)"
proof -
  have "QString_at (shaLine @ rest) 0 = Some CHR ''c''"
    by (simp add: shaLine_def QString_at_def nth_append)
  then show ?thesis
    by (simp add: parseDiffFormat_step_def)
qed

lemma fastLine_step_general:
  "parseDiffFormat_step gitStatusLetters a fastLine parNum fl g =
    (case parseDiffFormatLine gitStatusLetters a fastLine parNum fl g of
       None \<Rightarrow> None
     | Some (fl1, g1) \<Rightarrow> Some (parNum, fl1, g1))"
  by (simp add: parseDiffFormat_step_def fastLine_facts split: option.splits)

lemma mergeBuffer_records: "records mergeBuffer = [shaLine, fastLine, shaLine, fastLine]"
proof -
  have "splitKeep newline (shaLine @ newline # (fastLine @ newline # (shaLine @ newline # (fastLine @ newline # []))))
      = shaLine # splitKeep newline (fastLine @ newline # (shaLine @ newline # (fastLine @ newline # [])))"
    by (rule splitKeep_first_field) (rule shaLine_facts)
  also have "splitKeep newline (fastLine @ newline # (shaLine @ newline # (fastLine @ newline # [])))
      = fastLine # splitKeep newline (shaLine @ newline # (fastLine @ newline # []))"
    by (rule splitKeep_first_field) (rule fastLine_facts)
  also have "splitKeep newline (shaLine @ newline # (fastLine @ newline # []))
      = shaLine # splitKeep newline (fastLine @ newline # [])"
    by (rule splitKeep_first_field) (rule shaLine_facts)
  also have "splitKeep newline (fastLine @ newline # []) = fastLine # splitKeep newline []"
    by (rule splitKeep_first_field) (rule fastLine_facts)
  finally show ?thesis
    by (simp add: records_def mergeBuffer_def)
qed

lemma mergeBuffer_positions:
  "QString_indexOf mergeBuffer newline 0 = 40"
  "QString_mid mergeBuffer 0 (40 - 0) = shaLine @ []"
  "QString_indexOf mergeBuffer newline (40 + 99) = 141"
  "QString_mid mergeBuffer (40 + 1) (141 - (40 + 1)) = fastLine"
  "QString_indexOf mergeBuffer newline (141 + 99) = 283"
  "QString_mid mergeBuffer (141 + 1) (283 - (141 + 1)) = shaLine @ newline # fastLine"
  "QString_indexOf mergeBuffer newline (283 + 99) = - 1"
proof -
  have d: "newline \<notin> set (drop n fastLine)" for n
    using fastLine_facts(2) by (auto dest: in_set_dropD)
  show "QString_indexOf mergeBuffer newline 0 = 40"
    using QString_indexOf_first [of mergeBuffer "[]" shaLine newline
        "fastLine @ newline # shaLine @ newline # fastLine @ [newline]" 0]
    by (simp add: mergeBuffer_def shaLine_facts)
  show "QString_mid mergeBuffer 0 (40 - 0) = shaLine @ []"
    using QString_mid_middle [of mergeBuffer "[]" shaLine
        "newline # fastLine @ newline # shaLine @ newline # fastLine @ [newline]" 0 40]
    by (simp add: mergeBuffer_def shaLine_facts)
  show "QString_indexOf mergeBuffer newline (40 + 99) = 141"
    using QString_indexOf_first [of mergeBuffer "shaLine @ newline # take 98 fastLine" "drop 98 fastLine" newline
        "shaLine @ newline # fastLine @ [newline]" 139, OF _ d]
    by (simp add: mergeBuffer_def shaLine_facts fastLine_facts)
  show "QString_mid mergeBuffer (40 + 1) (141 - (40 + 1)) = fastLine"
    using QString_mid_middle [of mergeBuffer "shaLine @ [newline]" fastLine
        "newline # shaLine @ newline # fastLine @ [newline]" 41 100]
    by (simp add: mergeBuffer_def shaLine_facts fastLine_facts)
  show "QString_indexOf mergeBuffer newline (141 + 99) = 283"
    using QString_indexOf_first [of mergeBuffer
        "shaLine @ newline # fastLine @ newline # shaLine @ newline # take 57 fastLine" "drop 57 fastLine"
        newline "[]" 240, OF _ d]
    by (simp add: mergeBuffer_def shaLine_facts fastLine_facts)
  show "QString_mid mergeBuffer (141 + 1) (283 - (141 + 1)) = shaLine @ newline # fastLine"
    using QString_mid_middle [of mergeBuffer "shaLine @ newline # fastLine @ [newline]"
        "shaLine @ newline # fastLine" "[newline]" 142 141]
    by (simp add: mergeBuffer_def shaLine_facts fastLine_facts)
  have "length mergeBuffer = 284"
    by (simp add: mergeBuffer_def shaLine_facts fastLine_facts)
  then show "QString_indexOf mergeBuffer newline (283 + 99) = - 1"
    by (simp add: QString_indexOf_def)
qed

lemma mergeBuffer_loop:
  "parseDiffFormat_loop gitStatusLetters a mergeBuffer 1 0 (QString_indexOf mergeBuffer newline 0) fl g =
     (case parseDiffFormatLine gitStatusLetters a fastLine 2 fl g of
        None \<Rightarrow> None
      | Some (fl1, g1) \<Rightarrow> Some (3, fl1, g1))"
  apply (simp only: mergeBuffer_positions(1))
  apply (subst parseDiffFormat_loop.simps)
  apply (simp add: mergeBuffer_positions [simplified] shaLine_step [of _ _ "[]", simplified])
  apply (subst parseDiffFormat_loop.simps)
  apply (simp add: mergeBuffer_positions [simplified] fastLine_step_general split: option.splits)
  apply (subst parseDiffFormat_loop.simps)
  apply (simp add: mergeBuffer_positions [simplified] shaLine_step)
  done

text \<open>
  C3. The raw diff of a merge against its two parents: a commit-id line, the change line
  of file \<open>f\<close> against the first parent, a second commit-id line, the change line of
  \<open>f\<close> against the second parent. The four records examined once each give two entries,
  with parent counters 2 and 3. The loop searches the end of the third line from 99
  positions after the end of the second, past the newline of the 40-character commit-id
  line: it examines the commit-id line and the change line after it as one line, which
  does not begin with a colon, and appends no entry for the second parent.
\<close>

theorem parseDiffFormat_loses_line_after_commit_id:
  "records mergeBuffer = [shaLine, fastLine, shaLine, fastLine] \<and>
   parseRecords gitStatusLetters 0 (records mergeBuffer) 1 FileNamesLoader_new Git_new \<noteq> None \<and>
   mergeParent (objects (snd (snd (the (parseRecords gitStatusLetters 0 (records mergeBuffer) 1
       FileNamesLoader_new Git_new)))) 0) = [2, 3] \<and>
   parseDiffFormat gitStatusLetters 0 mergeBuffer FileNamesLoader_new Git_new \<noteq> None \<and>
   mergeParent (objects (snd (the (parseDiffFormat gitStatusLetters 0 mergeBuffer
       FileNamesLoader_new Git_new))) 0) = [2]"
proof -
  have r: "parseRecords gitStatusLetters 0 (records mergeBuffer) 1 FileNamesLoader_new Git_new
      = Some (3, \<lparr>rf = Some 0, rfDirs = [0, 0], rfNames = [0, 0]\<rparr>,
           Git_new\<lparr>mDirNamesMap := [[] \<mapsto> 0], mDirNames := [[]],
             mFileNamesMap := [''f'' \<mapsto> 0], mFileNames := [''f''],
             objects := (objects Git_new)(0 := RevisionFile_new\<lparr>status := [{MODIFIED}, {MODIFIED}],
                mergeParent := [2, 3]\<rparr>)\<rparr>)"
    using shaLine_step [of gitStatusLetters 0 "[]"]
    by (simp add: mergeBuffer_records fastLine_step_general fastLine_parse eval_intern
        setStatus_code_def gitStatusLetters_def RevisionFile_new_def)
  have c: "parseDiffFormat gitStatusLetters 0 mergeBuffer FileNamesLoader_new Git_new
      = Some (\<lparr>rf = Some 0, rfDirs = [0], rfNames = [0]\<rparr>,
           Git_new\<lparr>mDirNamesMap := [[] \<mapsto> 0], mDirNames := [[]],
             mFileNamesMap := [''f'' \<mapsto> 0], mFileNames := [''f''],
             objects := (objects Git_new)(0 := RevisionFile_new\<lparr>status := [{MODIFIED}],
                mergeParent := [2]\<rparr>)\<rparr>)"
    by (simp add: parseDiffFormat_def mergeBuffer_loop fastLine_parse eval_intern
        setStatus_code_def gitStatusLetters_def RevisionFile_new_def)
  from r c show ?thesis
    by (simp add: mergeBuffer_records)
qed


section \<open>Entry and parent alignment; the working-directory merge\<close>

lemma keepsEntries_updates [simp]:
  "keepsEntries (setStatus_code dec s)" "keepsEntries (setStatus_flag fl)"
  "keepsEntries (appendExtStatus e)" "keepsEntries (setOnlyModified b)"
  by (simp_all add: keepsEntries_def setStatus_code_def setStatus_flag_def appendExtStatus_def
      setOnlyModified_def)







lemma rawLine_facts:
  "98 \<le> length (rawLine c path)"
  "c \<noteq> newline \<Longrightarrow> newline \<notin> set path \<Longrightarrow> newline \<notin> set (rawLine c path)"
  by (simp_all add: rawLine_def rawPrefix_def)

lemma rawLine_step:
  "parseDiffFormat_step dec a (rawLine c path) parNum fl g =
     (case appendFileName a path fl g of
        None \<Rightarrow> None
      | Some (fl1, g1) \<Rightarrow> Some (parNum, fl1, fastEntry dec a c parNum g1))"
proof -
  have "QString_at (rawLine c path) 0 = Some CHR '':''"
    by (simp add: rawLine_def rawPrefix_def QString_at_def)
  then show ?thesis
    using parseDiffFormatLine_fast_path [OF rawPrefix_facts, of dec a c path parNum fl g]
    by (simp add: parseDiffFormat_step_def rawLine_def fastEntry_def split: option.splits)
qed

lemma records_two_lines:
  assumes "newline \<notin> set l1" and "newline \<notin> set l2"
  shows "records (l1 @ newline # l2 @ [newline]) = [l1, l2]"
proof -
  have "splitKeep newline (l1 @ newline # (l2 @ newline # [])) = l1 # splitKeep newline (l2 @ newline # [])"
    using assms(1) by (rule splitKeep_first_field)
  also have "splitKeep newline (l2 @ newline # []) = l2 # splitKeep newline []"
    using assms(2) by (rule splitKeep_first_field)
  finally show ?thesis
    by (simp add: records_def)
qed

lemma parseDiffFormat_two_raw_lines:
  assumes "c1 \<noteq> newline" "newline \<notin> set p1" "c2 \<noteq> newline" "newline \<notin> set p2"
  shows "parseDiffFormat dec a (rawLine c1 p1 @ newline # rawLine c2 p2 @ [newline]) fl g =
    (case appendFileName a p1 fl g of
       None \<Rightarrow> None
     | Some (fl1, g1) \<Rightarrow>
         (case appendFileName a p2 fl1 (fastEntry dec a c1 1 g1) of
            None \<Rightarrow> None
          | Some (fl2, g2) \<Rightarrow> Some (fl2, fastEntry dec a c2 1 g2)))"
proof -
  let ?buf = "rawLine c1 p1 @ newline # rawLine c2 p2 @ [newline]"
  have r: "records ?buf = [rawLine c1 p1, rawLine c2 p2]"
    using assms by (intro records_two_lines rawLine_facts)
  then have "\<forall>l \<in> set (tl (records ?buf)). 98 \<le> length l"
    by (simp add: rawLine_facts)
  from loop_is_parseRecords [OF this, of dec a fl g] r show ?thesis
    by (simp add: parseDiffFormat_def rawLine_step split: option.splits)
qed

lemmas eval_entries = fastEntry_def setStatus_code_def gitStatusLetters_def RevisionFile_new_def
  setOnlyModified_def

lemma wdConflict_baseline:
  "parseDiffFormat gitStatusLetters 0 (diffIndex wdConflict) FileNamesLoader_new
      (updateObject 0 (\<lambda>_. RevisionFile_new) Git_new) =
   Some (\<lparr>rf = Some 0, rfDirs = [0, 0], rfNames = [0, 1]\<rparr>,
         Git_new\<lparr>mDirNamesMap := [[] \<mapsto> 0], mDirNames := [[]],
           mFileNamesMap := [''a.txt'' \<mapsto> 0, ''x.txt'' \<mapsto> 1], mFileNames := [''a.txt'', ''x.txt''],
           objects := (objects Git_new)(0 := RevisionFile_new\<lparr>status := [{MODIFIED}, {MODIFIED}],
              mergeParent := [1, 1]\<rparr>)\<rparr>)"
  by (simp add: wdConflict_def parseDiffFormat_two_raw_lines eval_intern eval_entries)

lemma wdConflict_staged:
  "parseDiffFormat gitStatusLetters 1 (diffIndexCached wdConflict)
      \<lparr>rf = Some 0, rfDirs = [0, 0], rfNames = [0, 1]\<rparr>
      (Git_new\<lparr>mDirNamesMap := [[] \<mapsto> 0], mDirNames := [[]],
           mFileNamesMap := [''a.txt'' \<mapsto> 0, ''x.txt'' \<mapsto> 1], mFileNames := [''a.txt'', ''x.txt''],
           objects := (objects Git_new)(0 := RevisionFile_new\<lparr>status := [{MODIFIED}, {MODIFIED}],
              mergeParent := [1, 1], mOnlyModified := False\<rparr>, 1 := RevisionFile_new)\<rparr>) =
   Some (\<lparr>rf = Some 1, rfDirs = [0, 0], rfNames = [1, 2]\<rparr>,
         tablesConflict\<lparr>objects := (objects Git_new)(0 := baselineConflict,
             1 := stagedConflict\<lparr>pathsIdx := []\<rparr>)\<rparr>)"
  by (simp add: wdConflict_def parseDiffFormat_two_raw_lines eval_intern eval_entries
      tablesConflict_def baselineConflict_def stagedConflict_def)

lemma wdConflict_marking:
  "markStaged_loop 0 1 0 2
      (tablesConflict\<lparr>objects := (objects Git_new)(0 := baselineConflict, 1 := stagedConflict)\<rparr>) =
   Some (tablesConflict\<lparr>objects := (objects Git_new)
      (0 := baselineConflict\<lparr>status := [{MODIFIED}, {MODIFIED, IN_INDEX}]\<rparr>, 1 := stagedConflict)\<rparr>)"
proof -
  let ?g = "tablesConflict\<lparr>objects := (objects Git_new)(0 := baselineConflict, 1 := stagedConflict)\<rparr>"
  have p0: "filePath (tablesConflict\<lparr>objects := ob\<rparr>) baselineConflict 0 = Some ''a.txt''"
    and p1: "filePath (tablesConflict\<lparr>objects := ob\<rparr>) baselineConflict 1 = Some ''x.txt''" for ob
    by (simp_all add: filePath_def dirAt_def nameAt_def count_def QVector_at_def
        baselineConflict_def tablesConflict_def)
  have f0: "findFileIndex (tablesConflict\<lparr>objects := ob\<rparr>) stagedConflict ''a.txt'' = Some (- 1)"
    and f1: "findFileIndex (tablesConflict\<lparr>objects := ob\<rparr>) stagedConflict ''x.txt'' = Some 0" for ob
    by (simp_all add: findFileIndex_def dirAt_def nameAt_def count_def QVector_at_def
        stagedConflict_def tablesConflict_def QString_lastIndexOf_def QString_left_def
        QString_mid_def numeral_2_eq_2)
  have b0: "markStaged_body 0 1 0 ?g = Some ?g"
    by (simp add: markStaged_body_def p0 f0 del: One_nat_def)
  have c: "statusCmp stagedConflict 1 CONFLICT = Some False"
    by (simp add: statusCmp_def QVector_at_def stagedConflict_def)
  have u: "updateObject_checked 0 (appendStatus 1 IN_INDEX) ?g = Some (tablesConflict\<lparr>objects := (objects Git_new)
      (0 := baselineConflict\<lparr>status := [{MODIFIED}, {MODIFIED, IN_INDEX}]\<rparr>, 1 := stagedConflict)\<rparr>)"
    by (simp add: updateObject_checked_def appendStatus_def baselineConflict_def insert_commute
        fun_upd_twist [of "1::nat" 0] del: One_nat_def)
  have b1: "markStaged_body 0 1 1 ?g = Some (tablesConflict\<lparr>objects := (objects Git_new)
      (0 := baselineConflict\<lparr>status := [{MODIFIED}, {MODIFIED, IN_INDEX}]\<rparr>, 1 := stagedConflict)\<rparr>)"
    by (simp add: markStaged_body_def p1 f1 c u del: One_nat_def)
  have "markStaged_loop 0 1 0 (Suc (Suc 0)) ?g = Some (tablesConflict\<lparr>objects := (objects Git_new)
      (0 := baselineConflict\<lparr>status := [{MODIFIED}, {MODIFIED, IN_INDEX}]\<rparr>, 1 := stagedConflict)\<rparr>)"
    by (simp add: b0 b1 del: One_nat_def)
  then show ?thesis
    by (simp only: numeral_2_eq_2)
qed

lemma wdConflict_run:
  "fakeWorkDirRevFile gitStatusLetters wdConflict Git_new =
     Some (baselineConflict\<lparr>status := [{MODIFIED}, {MODIFIED, IN_INDEX}]\<rparr>,
           tablesConflict\<lparr>objects := (objects Git_new)
             (0 := baselineConflict\<lparr>status := [{MODIFIED}, {MODIFIED, IN_INDEX}]\<rparr>, 1 := stagedConflict)\<rparr>)"
proof -
  have o: "otherFiles wdConflict = []"
    by (simp add: wdConflict_def)
  have g2: "updateObject 0 (setOnlyModified False)
      (Git_new\<lparr>mDirNamesMap := [[] \<mapsto> 0], mDirNames := [[]],
           mFileNamesMap := [''a.txt'' \<mapsto> 0, ''x.txt'' \<mapsto> 1], mFileNames := [''a.txt'', ''x.txt''],
           objects := (objects Git_new)(0 := RevisionFile_new\<lparr>status := [{MODIFIED}, {MODIFIED}],
              mergeParent := [1, 1]\<rparr>)\<rparr>) =
      Git_new\<lparr>mDirNamesMap := [[] \<mapsto> 0], mDirNames := [[]],
           mFileNamesMap := [''a.txt'' \<mapsto> 0, ''x.txt'' \<mapsto> 1], mFileNames := [''a.txt'', ''x.txt''],
           objects := (objects Git_new)(0 := RevisionFile_new\<lparr>status := [{MODIFIED}, {MODIFIED}],
              mergeParent := [1, 1], mOnlyModified := False\<rparr>)\<rparr>"
    by (simp add: updateObject_def setOnlyModified_def)
  have g4: "updateObject 1 (\<lambda>_. RevisionFile_new)
      (Git_new\<lparr>mDirNamesMap := [[] \<mapsto> 0], mDirNames := [[]],
           mFileNamesMap := [''a.txt'' \<mapsto> 0, ''x.txt'' \<mapsto> 1], mFileNames := [''a.txt'', ''x.txt''],
           objects := (objects Git_new)(0 := RevisionFile_new\<lparr>status := [{MODIFIED}, {MODIFIED}],
              mergeParent := [1, 1], mOnlyModified := False\<rparr>)\<rparr>) =
      Git_new\<lparr>mDirNamesMap := [[] \<mapsto> 0], mDirNames := [[]],
           mFileNamesMap := [''a.txt'' \<mapsto> 0, ''x.txt'' \<mapsto> 1], mFileNames := [''a.txt'', ''x.txt''],
           objects := (objects Git_new)(0 := RevisionFile_new\<lparr>status := [{MODIFIED}, {MODIFIED}],
              mergeParent := [1, 1], mOnlyModified := False\<rparr>, 1 := RevisionFile_new)\<rparr>"
    by (simp add: updateObject_def)
  have fl: "flushFileNames \<lparr>rf = Some 1, rfDirs = [0, 0], rfNames = [1, 2]\<rparr>
      (tablesConflict\<lparr>objects := (objects Git_new)(0 := baselineConflict,
             1 := stagedConflict\<lparr>pathsIdx := []\<rparr>)\<rparr>) =
      Some (FileNamesLoader_new,
        tablesConflict\<lparr>objects := (objects Git_new)(0 := baselineConflict, 1 := stagedConflict)\<rparr>)"
    by (simp add: flushFileNames_def updateObject_def FileNamesLoader_new_def stagedConflict_def)
  have cnt: "nat (count baselineConflict) = 2"
    by (simp add: count_def baselineConflict_def)
  have ob: "objects (tablesConflict\<lparr>objects := (objects Git_new)(0 := baselineConflict, 1 := stagedConflict)\<rparr>) 0
      = baselineConflict"
    by simp
  have res: "objects (tablesConflict\<lparr>objects := (objects Git_new)
      (0 := baselineConflict\<lparr>status := [{MODIFIED}, {MODIFIED, IN_INDEX}]\<rparr>, 1 := stagedConflict)\<rparr>) 0
      = baselineConflict\<lparr>status := [{MODIFIED}, {MODIFIED, IN_INDEX}]\<rparr>"
    by simp
  show ?thesis
    unfolding fakeWorkDirRevFile_def Let_def
    by (simp only: wdConflict_baseline o g2 g4 appendOtherFiles.simps wdConflict_staged fl
        ob cnt wdConflict_marking res Option.bind.simps prod.case)
qed























text \<open>
  C1. Baseline \<open>a.txt\<close> and \<open>x.txt\<close>, both Modified; staged \<open>x.txt\<close> in conflict (letter
  \<open>U\<close>) and \<open>z.txt\<close> Modified. The entry for \<open>x.txt\<close> is at position 1 of the baseline
  and at position 0 of the staged files. The code looks \<open>x.txt\<close> up in the staged files
  but tests the conflict flag of the staged entry at position 1 (\<open>z.txt\<close>): the
  synthesized entry for \<open>x.txt\<close> gets the In-Index flag and not the Conflict flag.
\<close>

theorem fakeWorkDirRevFile_conflict_read_by_position:
  "\<exists>r g'. fakeWorkDirRevFile gitStatusLetters wdConflict Git_new = Some (r, g') \<and>
     filePath g' r 1 = Some ''x.txt'' \<and>
     findFileIndex g' (objects g' 1) ''x.txt'' = Some 0 \<and>
     filePath g' (objects g' 1) 0 = Some ''x.txt'' \<and>
     statusCmp (objects g' 1) 0 CONFLICT = Some True \<and>
     statusCmp r 1 MODIFIED = Some True \<and>
     statusCmp r 1 IN_INDEX = Some True \<and>
     statusCmp r 1 CONFLICT = Some False"
  unfolding wdConflict_run
  by (simp add: filePath_def findFileIndex_def dirAt_def nameAt_def count_def QVector_at_def
      statusCmp_def baselineConflict_def stagedConflict_def tablesConflict_def
      QString_lastIndexOf_def QString_left_def QString_mid_def numeral_2_eq_2)


section \<open>Decoding the commit stream\<close>










subsection \<open>The synthesis returns when nothing is staged\<close>











subsection \<open>The working-directory step and the batch\<close>












subsection \<open>A work tree with a staged file, and one without\<close>










end
